theory Spec2Isabelle
  imports Main "HOL-Library.Char_ord" "HOL-Library.List_Lexorder" "HOL-Library.Word"
begin

section \<open>The order ledger of services/googleSheets.service.js\<close>

text \<open>
  The service keeps one sheet, \<open>Orders\<close>, whose columns A to J hold the ten fields of an
  order. Every method of \<open>GoogleSheetsService\<close> is embedded as a function that takes the
  state of the service and of the sheet and returns its result with the new state.

  Strings are lists of characters standing for the code units of a JavaScript string.
\<close>

subsection \<open>JavaScript values and operators\<close>

text \<open>
  A number is a double. Those whose value is an integer from \<open>-2^53\<close> up to \<open>2^53 - 1\<close> are
  the signed 54-bit integers \<open>Num n\<close>, of value \<open>sint n\<close>: each is a double of its own, and
  its text is its decimal numeral (negative zero is \<open>Num 0\<close>: it prints as \<open>0\<close> and is
  falsy). Any other number, a fraction, a larger integer, an infinity or NaN, is
  \<open>Other d\<close>, where \<open>d\<close> holds what the program can observe of it: \<open>js_text\<close> is the
  string that the language's conversion of a number to a string gives for it,
  \<open>sheet_text\<close> the text of a cell it has been written to, and \<open>is_nan\<close> whether it is
  NaN, the one falsy number among these.
\<close>

record other_number =
  js_text :: string
  sheet_text :: string
  is_nan :: bool

datatype jsval = Undefined | Null | Num "54 word" | Other other_number | Str string

text \<open>Truthiness, as tested by \<open>!x\<close>, \<open>x || y\<close>, \<open>x ? a : b\<close> and \<open>if (x)\<close>.\<close>

fun truthy :: "jsval \<Rightarrow> bool" where
  "truthy Undefined = False"
| "truthy Null = False"
| "truthy (Num n) = (n \<noteq> 0)"
| "truthy (Other d) = (\<not> is_nan d)"
| "truthy (Str s) = (s \<noteq> [])"

definition js_or :: "jsval \<Rightarrow> jsval \<Rightarrow> jsval" where
  "js_or a b = (if truthy a then a else b)"

definition digit_char :: "nat \<Rightarrow> char" where
  "digit_char d = ''0123456789'' ! d"

function show_nat :: "nat \<Rightarrow> string" where
  "show_nat n =
     (if n < 10 then [digit_char n] else show_nat (n div 10) @ [digit_char (n mod 10)])"
  by pat_completeness auto
termination
  by (relation "measure id") auto

declare show_nat.simps [simp del]

definition show_int :: "int \<Rightarrow> string" where
  "show_int i = (if i < 0 then CHR ''-'' # show_nat (nat (- i)) else show_nat (nat i))"

text \<open>The conversion to a string that a template literal \<open>${x}\<close> applies.\<close>

fun to_string :: "jsval \<Rightarrow> string" where
  "to_string Undefined = ''undefined''"
| "to_string Null = ''null''"
| "to_string (Num n) = show_int (sint n)"
| "to_string (Other d) = js_text d"
| "to_string (Str s) = s"

text \<open>\<open>Array.prototype.join\<close> on an array of strings.\<close>

fun join :: "string \<Rightarrow> string list \<Rightarrow> string" where
  "join sep [] = []"
| "join sep [x] = x"
| "join sep (x # y # ys) = x @ sep @ join sep (y # ys)"

text \<open>
  \<open>s.replace(/\D/g, '')\<close>: without the \<open>u\<close> flag the class \<open>\D\<close> is every code unit
  other than the ten ASCII digits, and the global replacement deletes each of them.
\<close>

definition is_digit :: "char \<Rightarrow> bool" where
  "is_digit c = (c \<in> set ''0123456789'')"

definition strip_non_digits :: "string \<Rightarrow> string" where
  "strip_non_digits s = filter is_digit s"

text \<open>\<open>s.includes(t)\<close>: \<open>t\<close> occurs in \<open>s\<close> at some position.\<close>

fun starts_with :: "string \<Rightarrow> string \<Rightarrow> bool" where
  "starts_with s [] = True"
| "starts_with [] (y # ys) = False"
| "starts_with (x # xs) (y # ys) = (x = y \<and> starts_with xs ys)"

fun str_includes :: "string \<Rightarrow> string \<Rightarrow> bool" where
  "str_includes [] t = (t = [])"
| "str_includes (x # xs) t = (starts_with (x # xs) t \<or> str_includes xs t)"

text \<open>
  \<open>a > b\<close> on two strings: the code units are compared from the left, the first
  difference decides, and a proper prefix is the smaller string.
\<close>

fun str_gt :: "string \<Rightarrow> string \<Rightarrow> bool" where
  "str_gt [] b = False"
| "str_gt (x # xs) [] = True"
| "str_gt (x # xs) (y # ys) =
     (if x = y then str_gt xs ys else (of_char y :: nat) < of_char x)"

text \<open>
  \<open>row[i] = v\<close> on an array: inside the array the element is replaced, beyond its end
  the array is extended. The elements in between are holes; a hole is sent to the store
  as \<open>null\<close>, which the store skips, and these cells lie beyond the last cell the row
  had when it was read, so they are the empty cells they were. They are written \<open>''''\<close>.
\<close>

definition js_set :: "string list \<Rightarrow> nat \<Rightarrow> string \<Rightarrow> string list" where
  "js_set xs i v =
     (if i < length xs then xs[i := v] else xs @ replicate (i - length xs) [] @ [v])"

text \<open>\<open>row[i]\<close> on a row read from the store: \<open>None\<close> is \<open>undefined\<close>.\<close>

definition cell :: "string list \<Rightarrow> nat \<Rightarrow> string option" where
  "cell row i = (if i < length row then Some (row ! i) else None)"

text \<open>\<open>row[i] || ''\<close>.\<close>

definition cell_or_empty :: "string list \<Rightarrow> nat \<Rightarrow> string" where
  "cell_or_empty row i = (case cell row i of None \<Rightarrow> [] | Some s \<Rightarrow> s)"

subsection \<open>The service and the store\<close>

text \<open>
  \<open>sheet\<close> is the content of columns A to J of the sheet \<open>Orders\<close>, as a read of the
  store returns it: row \<open>k + 1\<close> of the sheet is \<open>sheet ! k\<close>, and a row may be shorter than
  ten cells, since the store omits the cells after the last one that is filled.
  \<open>writes\<close> counts the write requests the store has accepted. \<open>initialized\<close> is the
  field of the service; the client \<open>this.sheets\<close> is set exactly when it is true.
\<close>

record world =
  initialized :: bool
  sheet :: "string list list"
  writes :: nat

datatype error = StoreError | TypeError

text \<open>
  Each call of the store's client may throw. The argument \<open>fails\<close> of a call says whether
  it does; a method that makes several calls takes a function from the position of the
  call in the method to that flag.
\<close>

definition values_get_A :: "bool \<Rightarrow> world \<Rightarrow> error + string list list" where
  "values_get_A fails w = (if fails then Inl StoreError else Inr (map (take 1) (sheet w)))"

definition values_get_data :: "bool \<Rightarrow> world \<Rightarrow> error + string list list" where
  "values_get_data fails w = (if fails then Inl StoreError else Inr (drop 1 (sheet w)))"

definition values_get_row :: "bool \<Rightarrow> world \<Rightarrow> nat \<Rightarrow> error + string list list" where
  "values_get_row fails w r =
     (if fails then Inl StoreError
      else if 0 < r \<and> r \<le> length (sheet w) \<and> sheet w ! (r - 1) \<noteq> []
           then Inr [sheet w ! (r - 1)] else Inr [])"

definition values_update_row :: "bool \<Rightarrow> world \<Rightarrow> nat \<Rightarrow> string list \<Rightarrow> error + world" where
  "values_update_row fails w r row =
     (if fails then Inl StoreError
      else Inr (w\<lparr>sheet := (sheet w)[r - 1 := row], writes := Suc (writes w)\<rparr>))"

definition values_update_H :: "bool \<Rightarrow> world \<Rightarrow> nat \<Rightarrow> string \<Rightarrow> error + world" where
  "values_update_H fails w r v =
     (if fails then Inl StoreError
      else Inr (w\<lparr>sheet := (sheet w)[r - 1 := js_set (sheet w ! (r - 1)) 7 v],
                  writes := Suc (writes w)\<rparr>))"

text \<open>
  The text of a cell written with \<open>valueInputOption: 'RAW'\<close>: a string as it is, an
  integer in decimal, any other number as the sheet shows it, and nothing for
  \<open>undefined\<close> and \<open>null\<close>.
\<close>

fun cell_text :: "jsval \<Rightarrow> string" where
  "cell_text Undefined = []"
| "cell_text Null = []"
| "cell_text (Num n) = show_int (sint n)"
| "cell_text (Other d) = sheet_text d"
| "cell_text (Str s) = s"

definition values_append :: "bool \<Rightarrow> world \<Rightarrow> jsval list \<Rightarrow> error + world" where
  "values_append fails w row =
     (if fails then Inl StoreError
      else Inr (w\<lparr>sheet := sheet w @ [map cell_text row], writes := Suc (writes w)\<rparr>))"

subsection \<open>ensureHeaders\<close>

definition headers :: "string list" where
  "headers = [''order_id'', ''order_number'', ''customer_name'', ''phone'', ''total_amount'',
     ''items_summary'', ''status'', ''last_customer_message'', ''confirmed_at'', ''created_at'']"

subsection \<open>addOrder\<close>

text \<open>
  The upstream order object, with the properties \<open>addOrder\<close> reads. A property read
  through \<open>?.\<close> may be absent (\<open>None\<close>); a property of an object that is there may
  still hold \<open>undefined\<close>. \<open>ident\<close> is the property \<open>_id\<close>; the properties of the
  customer and of the address carry the name of their object in front.
\<close>

record item_option =
  opt_name :: jsval
  opt_value :: jsval

record item =
  title :: jsval
  quantity :: jsval
  options :: "item_option list option"

record customer =
  customer_name :: jsval
  customer_phone :: jsval

record address =
  address_phone :: jsval

record price =
  amount :: jsval

record order =
  ident :: jsval
  orderSerial :: jsval
  customer :: "customer option"
  shippingAddress :: "address option"
  totalPrice :: "price option"
  items :: "item list option"

definition item_summary :: "item \<Rightarrow> string" where
  "item_summary it =
     (let sizeOption = (case options it of None \<Rightarrow> None
                        | Some opts \<Rightarrow> find (\<lambda>opt. opt_name opt = Str ''Size'') opts);
          size = (case sizeOption of Some so \<Rightarrow> '' ('' @ to_string (opt_value so) @ '')''
                  | None \<Rightarrow> [])
      in to_string (title it) @ size @ '' x'' @ to_string (quantity it))"

definition order_row :: "string \<Rightarrow> order \<Rightarrow> jsval list" where
  "order_row now ord =
     (let orderId = ident ord;
          orderNumber = orderSerial ord;
          customerName = js_or (case customer ord of None \<Rightarrow> Undefined | Some c \<Rightarrow> customer_name c)
                               (Str []);
          phone = js_or (case shippingAddress ord of None \<Rightarrow> Undefined
                         | Some a \<Rightarrow> address_phone a)
                    (js_or (case customer ord of None \<Rightarrow> Undefined | Some c \<Rightarrow> customer_phone c)
                       (Str []));
          totalAmount = js_or (case totalPrice ord of None \<Rightarrow> Undefined | Some p \<Rightarrow> amount p)
                              (Num 0);
          itemsSummary = js_or (case items ord of None \<Rightarrow> Undefined
                                | Some its \<Rightarrow> Str (join '', '' (map item_summary its)))
                               (Str []);
          status = ''PENDING_CONFIRMATION'';
          createdAt = now
      in [orderId, orderNumber, customerName, phone, totalAmount, itemsSummary, Str status,
          Str [], Str [], Str createdAt])"

text \<open>
  The body of the \<open>try\<close> block, with \<open>Inl\<close> for an exception, and the method, whose
  \<open>catch\<close> turns every exception into \<open>false\<close>. \<open>now\<close> is \<open>new Date().toISOString()\<close>.
\<close>

definition addOrder_try :: "world \<Rightarrow> bool \<Rightarrow> string \<Rightarrow> order \<Rightarrow> error + bool \<times> world" where
  "addOrder_try w fails now ord =
     (case values_append fails w (order_row now ord) of
        Inl e \<Rightarrow> Inl e
      | Inr w' \<Rightarrow> Inr (True, w'))"

definition addOrder :: "world \<Rightarrow> bool \<Rightarrow> string \<Rightarrow> order \<Rightarrow> bool \<times> world" where
  "addOrder w fails now ord =
     (if \<not> initialized w then (False, w)
      else case addOrder_try w fails now ord of
             Inl e \<Rightarrow> (False, w)
           | Inr r \<Rightarrow> r)"

subsection \<open>findRowByOrderId\<close>

text \<open>The loop over the rows of column A, from index \<open>i\<close> on.\<close>

fun find_loop :: "string list list \<Rightarrow> nat \<Rightarrow> string \<Rightarrow> int" where
  "find_loop [] i orderId = - 1"
| "find_loop (r # rs) i orderId =
     (if cell r 0 = Some orderId then int i + 1 else find_loop rs (Suc i) orderId)"

text \<open>
  The method does not test \<open>initialized\<close>: without a client, \<open>this.sheets.spreadsheets\<close>
  throws a TypeError inside the \<open>try\<close> block. Its \<open>catch\<close> returns \<open>-1\<close>.
\<close>

definition findRowByOrderId_try :: "world \<Rightarrow> bool \<Rightarrow> string \<Rightarrow> error + int" where
  "findRowByOrderId_try w fails orderId =
     (if \<not> initialized w then Inl TypeError
      else case values_get_A fails w of
             Inl e \<Rightarrow> Inl e
           | Inr rows \<Rightarrow> Inr (find_loop rows 0 orderId))"

definition findRowByOrderId :: "world \<Rightarrow> bool \<Rightarrow> string \<Rightarrow> int" where
  "findRowByOrderId w fails orderId =
     (case findRowByOrderId_try w fails orderId of Inl e \<Rightarrow> - 1 | Inr r \<Rightarrow> r)"

subsection \<open>updateOrderStatus\<close>

text \<open>The third argument; \<open>confirmedAt = None\<close> when the property is not supplied.\<close>

record additionalData =
  confirmedAt :: "string option"

definition no_data :: additionalData where
  "no_data = \<lparr>confirmedAt = None\<rparr>"

definition updateOrderStatus_try ::
  "world \<Rightarrow> (nat \<Rightarrow> bool) \<Rightarrow> string \<Rightarrow> string \<Rightarrow> string \<Rightarrow> additionalData
     \<Rightarrow> error + bool \<times> world" where
  "updateOrderStatus_try w fails now orderId status data =
     (let rowIndex = findRowByOrderId w (fails 0) orderId in
      if rowIndex = - 1 then Inr (False, w)
      else case values_get_row (fails 1) w (nat rowIndex) of
        Inl e \<Rightarrow> Inl e
      | Inr vals \<Rightarrow>
         (case vals of
            [] \<Rightarrow> Inl TypeError
          | row0 # _ \<Rightarrow>
             (let row1 = js_set row0 6 status;
                  row2 = (if status = ''CONFIRMED'' \<and> cell_or_empty row1 8 = []
                          then js_set row1 8 now else row1);
                  row3 = (case confirmedAt data of
                            None \<Rightarrow> row2
                          | Some c \<Rightarrow> if c \<noteq> [] then js_set row2 8 c else row2)
              in case values_update_row (fails 2) w (nat rowIndex) row3 of
                   Inl e \<Rightarrow> Inl e
                 | Inr w' \<Rightarrow> Inr (True, w'))))"

definition updateOrderStatus ::
  "world \<Rightarrow> (nat \<Rightarrow> bool) \<Rightarrow> string \<Rightarrow> string \<Rightarrow> string \<Rightarrow> additionalData
     \<Rightarrow> bool \<times> world" where
  "updateOrderStatus w fails now orderId status data =
     (if \<not> initialized w then (False, w)
      else case updateOrderStatus_try w fails now orderId status data of
             Inl e \<Rightarrow> (False, w)
           | Inr r \<Rightarrow> r)"

subsection \<open>updateLastMessage\<close>

definition updateLastMessage_try ::
  "world \<Rightarrow> (nat \<Rightarrow> bool) \<Rightarrow> string \<Rightarrow> string \<Rightarrow> error + bool \<times> world" where
  "updateLastMessage_try w fails orderId message =
     (let rowIndex = findRowByOrderId w (fails 0) orderId in
      if rowIndex = - 1 then Inr (False, w)
      else case values_update_H (fails 1) w (nat rowIndex) message of
             Inl e \<Rightarrow> Inl e
           | Inr w' \<Rightarrow> Inr (True, w'))"

definition updateLastMessage ::
  "world \<Rightarrow> (nat \<Rightarrow> bool) \<Rightarrow> string \<Rightarrow> string \<Rightarrow> bool \<times> world" where
  "updateLastMessage w fails orderId message =
     (if \<not> initialized w then (False, w)
      else case updateLastMessage_try w fails orderId message of
             Inl e \<Rightarrow> (False, w)
           | Inr r \<Rightarrow> r)"

subsection \<open>getPendingOrderByPhone\<close>

text \<open>
  The object the method returns, each field under the name of its property with the
  prefix \<open>po_\<close>; \<open>None\<close> in a field is \<open>undefined\<close>.
\<close>

record pending_order =
  po_orderId :: "string option"
  po_orderNumber :: "string option"
  po_customerName :: "string option"
  po_phone :: "string option"
  po_totalAmount :: "string option"
  po_itemsSummary :: "string option"
  po_status :: "string option"
  po_lastCustomerMessage :: string
  po_confirmedAt :: string
  po_createdAt :: "string option"

definition order_of_row :: "string list \<Rightarrow> pending_order" where
  "order_of_row row =
     \<lparr>po_orderId = cell row 0, po_orderNumber = cell row 1, po_customerName = cell row 2,
      po_phone = cell row 3, po_totalAmount = cell row 4, po_itemsSummary = cell row 5,
      po_status = cell row 6, po_lastCustomerMessage = cell_or_empty row 7,
      po_confirmedAt = cell_or_empty row 8, po_createdAt = cell row 9\<rparr>"

text \<open>
  \<open>!latestDate || createdAt > latestDate\<close>. \<open>latestDate\<close> is \<open>null\<close> at first and then
  the cell of a row, a string or \<open>undefined\<close>; \<open>None\<close> stands for both \<open>null\<close> and
  \<open>undefined\<close>, which only \<open>!latestDate\<close> reads. The comparison is reached with a
  non-empty string on the right; with \<open>undefined\<close> on the left it compares numbers, the
  left one being NaN, and is false.
\<close>

definition is_later :: "string option \<Rightarrow> string option \<Rightarrow> bool" where
  "is_later createdAt latestDate =
     (case latestDate of
        None \<Rightarrow> True
      | Some d \<Rightarrow> d = [] \<or> (case createdAt of None \<Rightarrow> False | Some c \<Rightarrow> str_gt c d))"

text \<open>One iteration of the loop, on the pair of \<open>latestOrder\<close> and \<open>latestDate\<close>.\<close>

definition pending_step ::
  "string \<Rightarrow> string list \<Rightarrow> pending_order option \<times> string option
     \<Rightarrow> pending_order option \<times> string option" where
  "pending_step cleanPhone row acc =
     (let rowPhone = strip_non_digits (cell_or_empty row 3);
          status = cell row 6;
          createdAt = cell row 9
      in if str_includes rowPhone cleanPhone \<or> str_includes cleanPhone rowPhone
         then if status = Some ''PENDING_CONFIRMATION''
              then if is_later createdAt (snd acc)
                   then (Some (order_of_row row), createdAt)
                   else acc
              else acc
         else acc)"

text \<open>The loop runs from the last row to the first: \<open>rows\<close> is given in that order.\<close>

fun pending_loop ::
  "string \<Rightarrow> string list list \<Rightarrow> pending_order option \<times> string option
     \<Rightarrow> pending_order option \<times> string option" where
  "pending_loop cleanPhone [] acc = acc"
| "pending_loop cleanPhone (row # rows) acc =
     pending_loop cleanPhone rows (pending_step cleanPhone row acc)"

definition getPendingOrderByPhone_try ::
  "world \<Rightarrow> bool \<Rightarrow> string \<Rightarrow> error + pending_order option" where
  "getPendingOrderByPhone_try w fails phone =
     (case values_get_data fails w of
        Inl e \<Rightarrow> Inl e
      | Inr rows \<Rightarrow>
          (let cleanPhone = strip_non_digits phone
           in Inr (fst (pending_loop cleanPhone (rev rows) (None, None)))))"

definition getPendingOrderByPhone :: "world \<Rightarrow> bool \<Rightarrow> string \<Rightarrow> pending_order option" where
  "getPendingOrderByPhone w fails phone =
     (if \<not> initialized w then None
      else case getPendingOrderByPhone_try w fails phone of
             Inl e \<Rightarrow> None
           | Inr r \<Rightarrow> r)"

subsection \<open>Notions of the specification\<close>

text \<open>The data rows are the rows below the header row.\<close>

definition data_rows :: "world \<Rightarrow> string list list" where
  "data_rows w = drop 1 (sheet w)"

text \<open>One string contains another as a substring.\<close>

definition contains :: "string \<Rightarrow> string \<Rightarrow> bool" where
  "contains s t = (\<exists>p q. s = p @ t @ q)"

text \<open>
  Two phone strings match when, after every character that is not a digit is removed
  from both, one contains the other.
\<close>

definition phones_match :: "string \<Rightarrow> string \<Rightarrow> bool" where
  "phones_match a b =
     (contains (filter is_digit a) (filter is_digit b) \<or>
      contains (filter is_digit b) (filter is_digit a))"

text \<open>The content of the fields of a row; a cell that the row lacks is empty.\<close>

definition stored_phone :: "string list \<Rightarrow> string" where
  "stored_phone row = cell_or_empty row 3"

definition confirmed_at :: "string list \<Rightarrow> string" where
  "confirmed_at row = cell_or_empty row 8"

definition created_at :: "string list \<Rightarrow> string" where
  "created_at row = cell_or_empty row 9"

definition is_pending :: "string list \<Rightarrow> bool" where
  "is_pending row = (cell row 6 = Some ''PENDING_CONFIRMATION'')"

text \<open>A row qualifies for a phone: its phone matches and it is pending.\<close>

definition qualifies :: "string \<Rightarrow> string list \<Rightarrow> bool" where
  "qualifies phone row = (phones_match (stored_phone row) phone \<and> is_pending row)"

text \<open>
  The structured record of a row: each field holds the cell of the row at the position of
  the field in the schema, the last customer message and confirmed_at being empty when
  the row lacks the cell.
\<close>

definition is_record_of :: "pending_order \<Rightarrow> string list \<Rightarrow> bool" where
  "is_record_of r row =
     (po_orderId r = cell row 0 \<and> po_orderNumber r = cell row 1 \<and>
      po_customerName r = cell row 2 \<and> po_phone r = cell row 3 \<and>
      po_totalAmount r = cell row 4 \<and> po_itemsSummary r = cell row 5 \<and>
      po_status r = cell row 6 \<and> po_lastCustomerMessage r = cell_or_empty row 7 \<and>
      po_confirmedAt r = cell_or_empty row 8 \<and> po_createdAt r = cell row 9)"

text \<open>The row of the sheet with the 1-based number \<open>r\<close>.\<close>

definition row_at :: "world \<Rightarrow> int \<Rightarrow> string list" where
  "row_at w r = sheet w ! (nat r - 1)"

text \<open>
  The invariant of the loop of getPendingOrderByPhone over the set \<open>S\<close> of rows it has
  visited: \<open>latestOrder\<close> is the object of a qualifying row of \<open>S\<close> whose created_at no
  qualifying row of \<open>S\<close> exceeds, \<open>latestDate\<close> is the cell of that row, and both are unset
  when no row of \<open>S\<close> qualifies.
\<close>

definition best_of ::
  "string \<Rightarrow> string list set \<Rightarrow> pending_order option \<times> string option \<Rightarrow> bool" where
  "best_of phone S acc =
     (case fst acc of
        None \<Rightarrow> snd acc = None \<and> (\<forall>row\<in>S. \<not> qualifies phone row)
      | Some r \<Rightarrow>
          \<exists>row\<in>S. qualifies phone row \<and> r = order_of_row row \<and> snd acc = cell row 9 \<and>
            (\<forall>row'\<in>S. qualifies phone row' \<longrightarrow> created_at row' \<le> created_at row))"

subsection \<open>A ledger with three orders\<close>

definition row_o1 :: "string list" where
  "row_o1 = [''o1'', ''1001'', ''Ann'', ''5551234567'', ''10'', ''Shirt (M) x2'',
     ''PENDING_CONFIRMATION'', [], [], ''2024-01-01T10:00:00.000Z'']"

definition row_o2 :: "string list" where
  "row_o2 = [''o2'', ''1002'', ''Ann'', ''15551234567'', ''25'', ''Cap x1'',
     ''PENDING_CONFIRMATION'', [], [], ''2024-01-02T09:30:00.000Z'']"

definition row_o3 :: "string list" where
  "row_o3 = [''o3'', ''1003'', ''Bob'', ''7770001111'', ''5'', ''Sock x3'',
     ''PENDING_CONFIRMATION'', [], [], ''2024-01-03T08:00:00.000Z'']"

text \<open>The rows are not in the order of their timestamps: \<open>o2\<close> is stored above \<open>o1\<close>.\<close>

definition ledger :: world where
  "ledger = \<lparr>initialized = True, sheet = [headers, row_o2, row_o1, row_o3], writes = 0\<rparr>"

subsection \<open>Auxiliary notions for updateOrderStatus\<close>

text \<open>The store answers every call.\<close>

definition no_faults :: "nat \<Rightarrow> bool" where
  "no_faults i = False"

text \<open>
  The row that updateOrderStatus writes back for the row \<open>row0\<close> it has read: the three
  assignments of the method, in its order.
\<close>

definition status_row ::
  "string \<Rightarrow> string \<Rightarrow> additionalData \<Rightarrow> string list \<Rightarrow> string list" where
  "status_row now status data row0 =
     (let row1 = js_set row0 6 status;
          row2 = (if status = ''CONFIRMED'' \<and> cell_or_empty row1 8 = []
                  then js_set row1 8 now else row1)
      in case confirmedAt data of
           None \<Rightarrow> row2
         | Some c \<Rightarrow> if c \<noteq> [] then js_set row2 8 c else row2)"

subsection \<open>Further inputs\<close>

text \<open>
  The ledger after the order \<open>o1\<close> has been confirmed.
\<close>

definition confirmed_ledger :: world where
  "confirmed_ledger =
     snd (updateOrderStatus ledger no_faults ''2024-01-04T12:00:00.000Z'' ''o1'' ''CONFIRMED'' no_data)"

text \<open>
  The store fails at every call of a method but its first; the service without a client.
\<close>

definition after_first :: "nat \<Rightarrow> bool" where
  "after_first i = (0 < i)"

definition offline :: world where
  "offline = ledger\<lparr>initialized := False\<rparr>"

text \<open>
  An order with nothing but its identifier and number, and an order with two items.
\<close>

definition bare_order :: order where
  "bare_order = \<lparr>ident = Str ''o7'', orderSerial = Str ''1007'', customer = None,
     shippingAddress = None, totalPrice = None, items = None\<rparr>"

definition shirt_order :: order where
  "shirt_order = \<lparr>ident = Str ''o1'', orderSerial = Str ''1001'', customer = None,
     shippingAddress = None, totalPrice = None,
     items = Some [\<lparr>title = Str ''Shirt'', quantity = Num 2,
                     options = Some [\<lparr>opt_name = Str ''Color'', opt_value = Str ''Red''\<rparr>,
                                     \<lparr>opt_name = Str ''Size'', opt_value = Str ''M''\<rparr>]\<rparr>,
                   \<lparr>title = Str ''Cap'', quantity = Num 1, options = None\<rparr>]\<rparr>"

text \<open>
  The properties of the order that addOrder reads through \<open>?.\<close>, and what it means for
  one to be absent.
\<close>

definition absent :: "jsval \<Rightarrow> bool" where
  "absent v = (v = Undefined \<or> v = Null)"

definition customer_name_of :: "order \<Rightarrow> jsval" where
  "customer_name_of ord = (case customer ord of None \<Rightarrow> Undefined | Some c \<Rightarrow> customer_name c)"

definition customer_phone_of :: "order \<Rightarrow> jsval" where
  "customer_phone_of ord = (case customer ord of None \<Rightarrow> Undefined | Some c \<Rightarrow> customer_phone c)"

definition shipping_phone_of :: "order \<Rightarrow> jsval" where
  "shipping_phone_of ord =
     (case shippingAddress ord of None \<Rightarrow> Undefined | Some a \<Rightarrow> address_phone a)"

definition amount_of :: "order \<Rightarrow> jsval" where
  "amount_of ord = (case totalPrice ord of None \<Rightarrow> Undefined | Some p \<Rightarrow> amount p)"

text \<open>
  A ledger with an order whose stored phone has no digit, stored above \<open>o1\<close>.
\<close>

definition row_o4 :: "string list" where
  "row_o4 = [''o4'', ''1004'', ''Cy'', ''n/a'', ''7'', ''Hat x1'',
     ''PENDING_CONFIRMATION'', [], [], ''2024-01-06T15:45:00.000Z'']"

definition walk_in_ledger :: world where
  "walk_in_ledger = \<lparr>initialized = True, sheet = [headers, row_o4, row_o1], writes = 0\<rparr>"

text \<open>
  The number that a string of decimal digits denotes, and the decimal numeral of an
  integer: digits without a leading zero, after a minus sign when it is negative.
\<close>

definition digits_value :: "string \<Rightarrow> nat" where
  "digits_value s = foldl (\<lambda>acc c. 10 * acc + (of_char c - 48)) 0 s"

definition canonical_digits :: "string \<Rightarrow> bool" where
  "canonical_digits ds =
     (ds \<noteq> [] \<and> (\<forall>c\<in>set ds. is_digit c) \<and> (1 < length ds \<longrightarrow> hd ds \<noteq> CHR ''0''))"

definition is_decimal_of :: "string \<Rightarrow> int \<Rightarrow> bool" where
  "is_decimal_of s i =
     (if i < 0 then \<exists>ds. s = CHR ''-'' # ds \<and> canonical_digits ds \<and> int (digits_value ds) = - i
      else canonical_digits s \<and> int (digits_value s) = i)"

text \<open>
  An order whose items have two options named Size, no options, and a quantity that is
  not an integer.
\<close>

definition mixed_items :: "item list" where
  "mixed_items =
     [\<lparr>title = Str ''Shirt'', quantity = Num 2,
        options = Some [\<lparr>opt_name = Str ''Color'', opt_value = Str ''Red''\<rparr>,
                        \<lparr>opt_name = Str ''Size'', opt_value = Str ''M''\<rparr>,
                        \<lparr>opt_name = Str ''Size'', opt_value = Str ''L''\<rparr>]\<rparr>,
      \<lparr>title = Str ''Cap'', quantity = Num 120, options = None\<rparr>,
      \<lparr>title = Str ''Ribbon'',
        quantity = Other \<lparr>js_text = ''1.5'', sheet_text = ''1.5'', is_nan = False\<rparr>,
        options = Some []\<rparr>]"

definition mixed_order :: order where
  "mixed_order = \<lparr>ident = Str ''o5'', orderSerial = Str ''1005'', customer = None,
     shippingAddress = None, totalPrice = None, items = Some mixed_items\<rparr>"

section \<open>Properties\<close>

subsection \<open>Strings\<close>

lemma str_gt_iff: "str_gt a b \<longleftrightarrow> b < a"
  by (induction a b rule: str_gt.induct) (auto simp: less_char_def)

lemma starts_with_iff: "starts_with s t \<longleftrightarrow> (\<exists>q. s = t @ q)"
  by (induction s t rule: starts_with.induct) auto

lemma str_includes_iff: "str_includes s t \<longleftrightarrow> contains s t"
proof (induction s)
  case Nil
  show ?case by (auto simp: contains_def)
next
  case (Cons x xs)
  show ?case
  proof
    assume "str_includes (x # xs) t"
    then consider "starts_with (x # xs) t" | "str_includes xs t" by auto
    then show "contains (x # xs) t"
    proof cases
      case 1
      then obtain q where "x # xs = t @ q" by (auto simp: starts_with_iff)
      then have "x # xs = [] @ t @ q" by simp
      then show ?thesis unfolding contains_def by blast
    next
      case 2
      then obtain p q where "xs = p @ t @ q" using Cons.IH by (auto simp: contains_def)
      then have "x # xs = (x # p) @ t @ q" by simp
      then show ?thesis unfolding contains_def by blast
    qed
  next
    assume "contains (x # xs) t"
    then obtain p q where pq: "x # xs = p @ t @ q" by (auto simp: contains_def)
    show "str_includes (x # xs) t"
    proof (cases p)
      case Nil
      with pq have "starts_with (x # xs) t" by (auto simp: starts_with_iff)
      then show ?thesis by simp
    next
      case (Cons y ys)
      with pq have "xs = ys @ t @ q" by simp
      then have "contains xs t" unfolding contains_def by blast
      then show ?thesis using Cons.IH by simp
    qed
  qed
qed

subsection \<open>The loop of getPendingOrderByPhone\<close>

lemma pending_step_eq:
  "pending_step (strip_non_digits phone) row acc =
     (if qualifies phone row \<and> is_later (cell row 9) (snd acc)
      then (Some (order_of_row row), cell row 9) else acc)"
  by (auto simp: pending_step_def qualifies_def phones_match_def str_includes_iff
        strip_non_digits_def stored_phone_def is_pending_def Let_def)

lemma is_later_ge:
  assumes "is_later (cell row 9) (cell row0 9)"
  shows "created_at row0 \<le> created_at row"
  using assms
  by (auto simp: is_later_def created_at_def cell_or_empty_def str_gt_iff
        split: option.splits)

lemma not_later_le:
  assumes "\<not> is_later (cell row 9) (cell row0 9)"
  shows "created_at row \<le> created_at row0"
  using assms
  by (auto simp: is_later_def created_at_def cell_or_empty_def str_gt_iff
        split: option.splits)

lemma best_of_step:
  assumes "best_of phone S acc"
  shows "best_of phone (insert row S) (pending_step (strip_non_digits phone) row acc)"
proof (cases "qualifies phone row \<and> is_later (cell row 9) (snd acc)")
  case True
  have "created_at row' \<le> created_at row" if "row' \<in> S" "qualifies phone row'" for row'
  proof (cases "fst acc")
    case None
    with assms that show ?thesis by (auto simp: best_of_def)
  next
    case (Some r)
    with assms obtain row0 where r0: "snd acc = cell row0 9"
      "\<forall>row'\<in>S. qualifies phone row' \<longrightarrow> created_at row' \<le> created_at row0"
      by (auto simp: best_of_def)
    from True r0 have "created_at row0 \<le> created_at row" by (simp add: is_later_ge)
    with r0 that show ?thesis by force
  qed
  with True show ?thesis by (auto simp: pending_step_eq best_of_def)
next
  case False
  show ?thesis
  proof (cases "qualifies phone row")
    case q: True
    with False have nl: "\<not> is_later (cell row 9) (snd acc)" by simp
    then obtain r where r: "fst acc = Some r"
      using assms by (cases "fst acc") (auto simp: best_of_def is_later_def)
    with assms obtain row0 where r0: "row0 \<in> S" "qualifies phone row0" "r = order_of_row row0"
      "snd acc = cell row0 9"
      "\<forall>row'\<in>S. qualifies phone row' \<longrightarrow> created_at row' \<le> created_at row0"
      by (auto simp: best_of_def)
    from nl r0 have "created_at row \<le> created_at row0" by (simp add: not_later_le)
    with r r0 False show ?thesis by (auto simp: pending_step_eq best_of_def)
  next
    case nq: False
    with assms show ?thesis
      by (auto simp: pending_step_eq best_of_def split: option.splits)
  qed
qed

lemma best_of_loop:
  "best_of phone S acc \<Longrightarrow>
   best_of phone (S \<union> set rows) (pending_loop (strip_non_digits phone) rows acc)"
proof (induction rows arbitrary: S acc)
  case Nil
  then show ?case by simp
next
  case (Cons row rows)
  from Cons.prems
  have "best_of phone (insert row S) (pending_step (strip_non_digits phone) row acc)"
    by (rule best_of_step)
  from Cons.IH [OF this] show ?case by simp
qed

lemma getPending_eq:
  "initialized w \<Longrightarrow> \<not> fails \<Longrightarrow>
   getPendingOrderByPhone w fails phone =
     fst (pending_loop (strip_non_digits phone) (rev (data_rows w)) (None, None))"
  by (simp add: getPendingOrderByPhone_def getPendingOrderByPhone_try_def values_get_data_def
        data_rows_def)

lemma best_of_result:
  "best_of phone (set (data_rows w))
     (pending_loop (strip_non_digits phone) (rev (data_rows w)) (None, None))"
proof -
  have "best_of phone {} (None, None)" by (simp add: best_of_def)
  from best_of_loop [OF this, of "rev (data_rows w)"] show ?thesis by simp
qed

lemma is_record_of_row: "is_record_of (order_of_row row) row"
  by (simp add: is_record_of_def order_of_row_def)

lemma is_record_of_unique: "is_record_of r row \<Longrightarrow> r = order_of_row row"
  by (simp add: is_record_of_def order_of_row_def)

text \<open>
  Claim C1. For every sheet and every input phone string, when the service is initialized
  and the store answers, getPendingOrderByPhone returns nothing exactly when no data row
  qualifies, where a row qualifies when its phone and the input, both stripped of every
  character that is not a digit, contain one another either way and its status is
  PENDING_CONFIRMATION; otherwise it returns the record of a qualifying row, field by
  field the cells of that row, whose created_at no qualifying row exceeds. In particular,
  a qualifying row whose created_at is strictly greater than that of every other
  qualifying row is the one whose record is returned.
\<close>

theorem getPendingOrderByPhone_latest:
  assumes "initialized w" and "\<not> fails"
  shows "(case getPendingOrderByPhone w fails phone of
            None \<Rightarrow> \<forall>row\<in>set (data_rows w). \<not> qualifies phone row
          | Some r \<Rightarrow>
              \<exists>row\<in>set (data_rows w). qualifies phone row \<and> is_record_of r row \<and>
                (\<forall>row'\<in>set (data_rows w). qualifies phone row' \<longrightarrow>
                   created_at row' \<le> created_at row)) \<and>
         (\<forall>r2\<in>set (data_rows w). qualifies phone r2 \<longrightarrow>
            (\<forall>r1\<in>set (data_rows w). qualifies phone r1 \<longrightarrow>
               r1 = r2 \<or> created_at r1 < created_at r2) \<longrightarrow>
            (\<exists>r. getPendingOrderByPhone w fails phone = Some r \<and> is_record_of r r2))"
proof -
  let ?acc = "pending_loop (strip_non_digits phone) (rev (data_rows w)) (None, None)"
  have res: "getPendingOrderByPhone w fails phone = fst ?acc"
    using assms by (rule getPending_eq)
  have best: "best_of phone (set (data_rows w)) ?acc"
    by (rule best_of_result)
  have first: "case fst ?acc of
            None \<Rightarrow> \<forall>row\<in>set (data_rows w). \<not> qualifies phone row
          | Some r \<Rightarrow>
              \<exists>row\<in>set (data_rows w). qualifies phone row \<and> is_record_of r row \<and>
                (\<forall>row'\<in>set (data_rows w). qualifies phone row' \<longrightarrow>
                   created_at row' \<le> created_at row)"
    using best by (auto simp: best_of_def is_record_of_row split: option.splits)
  have second: "\<exists>r. fst ?acc = Some r \<and> is_record_of r r2"
    if r2: "r2 \<in> set (data_rows w)" "qualifies phone r2"
      and top: "\<forall>r1\<in>set (data_rows w). qualifies phone r1 \<longrightarrow>
               r1 = r2 \<or> created_at r1 < created_at r2" for r2
  proof (cases "fst ?acc")
    case None
    with best r2 show ?thesis by (auto simp: best_of_def)
  next
    case (Some r)
    with best obtain row where row: "row \<in> set (data_rows w)" "qualifies phone row"
      "r = order_of_row row"
      "\<forall>row'\<in>set (data_rows w). qualifies phone row' \<longrightarrow> created_at row' \<le> created_at row"
      by (auto simp: best_of_def)
    from row r2 have "created_at r2 \<le> created_at row" by blast
    moreover from top row have "row = r2 \<or> created_at row < created_at r2" by blast
    ultimately have "row = r2" by auto
    with Some row show ?thesis by (simp add: is_record_of_row)
  qed
  from first second show ?thesis unfolding res by blast
qed

theorem getPendingOrderByPhone_latest_witness:
  "initialized ledger \<and> qualifies ''+1 (555) 123-4567'' row_o1 \<and>
   qualifies ''+1 (555) 123-4567'' row_o2 \<and> \<not> qualifies ''+1 (555) 123-4567'' row_o3 \<and>
   created_at row_o1 < created_at row_o2 \<and>
   getPendingOrderByPhone ledger False ''+1 (555) 123-4567'' =
     Some \<lparr>po_orderId = Some ''o2'', po_orderNumber = Some ''1002'',
           po_customerName = Some ''Ann'', po_phone = Some ''15551234567'',
           po_totalAmount = Some ''25'', po_itemsSummary = Some ''Cap x1'',
           po_status = Some ''PENDING_CONFIRMATION'', po_lastCustomerMessage = [],
           po_confirmedAt = [], po_createdAt = Some ''2024-01-02T09:30:00.000Z''\<rparr>"
proof -
  let ?p = "''+1 (555) 123-4567''"
  have i: "initialized ledger" by (simp add: ledger_def)
  have d: "data_rows ledger = [row_o2, row_o1, row_o3]"
    by (simp add: ledger_def data_rows_def)
  have q1: "qualifies ?p row_o1"
    unfolding qualifies_def phones_match_def str_includes_iff [symmetric] by code_simp
  have q2: "qualifies ?p row_o2"
    unfolding qualifies_def phones_match_def str_includes_iff [symmetric] by code_simp
  have q3: "\<not> qualifies ?p row_o3"
    unfolding qualifies_def phones_match_def str_includes_iff [symmetric] by code_simp
  have lt: "created_at row_o1 < created_at row_o2"
    unfolding created_at_def by code_simp
  have c: "cell row_o2 0 = Some ''o2''" "cell row_o2 (Suc 0) = Some ''1002''"
    "cell row_o2 2 = Some ''Ann''" "cell row_o2 3 = Some ''15551234567''"
    "cell row_o2 4 = Some ''25''" "cell row_o2 5 = Some ''Cap x1''"
    "cell row_o2 6 = Some ''PENDING_CONFIRMATION''" "cell_or_empty row_o2 7 = []"
    "cell_or_empty row_o2 8 = []" "cell row_o2 9 = Some ''2024-01-02T09:30:00.000Z''"
    by (simp_all add: cell_def cell_or_empty_def row_o2_def)
  from getPendingOrderByPhone_latest [OF i, of False ?p] q1 q2 q3 lt
  obtain r where r: "getPendingOrderByPhone ledger False ?p = Some r" "is_record_of r row_o2"
    by (auto simp: d)
  from r(2) have "r = \<lparr>po_orderId = Some ''o2'', po_orderNumber = Some ''1002'',
           po_customerName = Some ''Ann'', po_phone = Some ''15551234567'',
           po_totalAmount = Some ''25'', po_itemsSummary = Some ''Cap x1'',
           po_status = Some ''PENDING_CONFIRMATION'', po_lastCustomerMessage = [],
           po_confirmedAt = [], po_createdAt = Some ''2024-01-02T09:30:00.000Z''\<rparr>"
    by (cases r) (simp add: is_record_of_def c)
  with r(1) i q1 q2 q3 lt show ?thesis by simp
qed

subsection \<open>findRowByOrderId\<close>

lemma find_loop_none: "find_loop rows i oid = - 1 \<longleftrightarrow> (\<forall>r\<in>set rows. cell r 0 \<noteq> Some oid)"
  by (induction rows i oid rule: find_loop.induct) auto

lemma find_loop_found:
  "find_loop rows i oid = r \<Longrightarrow> r \<noteq> - 1 \<Longrightarrow>
   \<exists>k<length rows. r = int (i + k) + 1 \<and> cell (rows ! k) 0 = Some oid \<and>
     (\<forall>j<k. cell (rows ! j) 0 \<noteq> Some oid)"
proof (induction rows i oid rule: find_loop.induct)
  case (1 i orderId)
  then show ?case by simp
next
  case (2 r0 rs i orderId)
  show ?case
  proof (cases "cell r0 0 = Some orderId")
    case True
    with "2.prems" have "r = int (i + 0) + 1" by simp
    with True show ?thesis by (intro exI [of _ 0]) simp
  next
    case False
    with "2.prems" have "find_loop rs (Suc i) orderId = r" by simp
    from "2.IH" [OF False this "2.prems"(2)] obtain k where k: "k < length rs"
      "r = int (Suc i + k) + 1" "cell (rs ! k) 0 = Some orderId"
      "\<forall>j<k. cell (rs ! j) 0 \<noteq> Some orderId" by blast
    have "\<forall>j<Suc k. cell ((r0 # rs) ! j) 0 \<noteq> Some orderId"
      using False k(4) by (auto simp: less_Suc_eq_0_disj)
    with k show ?thesis by (intro exI [of _ "Suc k"]) simp
  qed
qed

lemma cell_take1: "cell (take (Suc 0) row) 0 = cell row 0"
  by (cases row) (auto simp: cell_def)

lemma findRow_none:
  "findRowByOrderId w f oid = - 1 \<longleftrightarrow>
     (\<not> initialized w \<or> f \<or> (\<forall>row\<in>set (sheet w). cell row 0 \<noteq> Some oid))"
  by (auto simp: findRowByOrderId_def findRowByOrderId_try_def values_get_A_def
        find_loop_none cell_take1)

lemma findRow_fault: "f \<Longrightarrow> findRowByOrderId w f oid = - 1"
  by (simp add: findRowByOrderId_def findRowByOrderId_try_def values_get_A_def)

lemma findRow_found:
  assumes "findRowByOrderId w f oid = r" and "r \<noteq> - 1"
  shows "initialized w \<and> \<not> f \<and> 0 < r \<and> nat r \<le> length (sheet w) \<and>
         cell (row_at w r) 0 = Some oid \<and>
         (\<forall>j<nat r - 1. cell (sheet w ! j) 0 \<noteq> Some oid)"
proof -
  from assms have i: "initialized w" and f: "\<not> f"
    by (auto simp: findRowByOrderId_def findRowByOrderId_try_def values_get_A_def
          split: if_splits)
  with assms have "find_loop (map (take 1) (sheet w)) 0 oid = r"
    by (simp add: findRowByOrderId_def findRowByOrderId_try_def values_get_A_def)
  from find_loop_found [OF this assms(2)] obtain k where k: "k < length (sheet w)"
    "r = int k + 1" "cell (sheet w ! k) 0 = Some oid"
    "\<forall>j<k. cell (sheet w ! j) 0 \<noteq> Some oid"
    by (auto simp: cell_take1)
  from k(2) have "nat r = Suc k" by simp
  with k i f show ?thesis by (simp add: row_at_def)
qed

lemma find_loop_cong:
  "map (\<lambda>row. cell row 0) rows = map (\<lambda>row. cell row 0) rows' \<Longrightarrow>
   find_loop rows i oid = find_loop rows' i oid"
proof (induction rows i oid arbitrary: rows' rule: find_loop.induct)
  case (1 i orderId)
  then show ?case by simp
next
  case (2 r0 rs i orderId)
  then obtain r0' rs' where rows': "rows' = r0' # rs'" by (cases rows') auto
  with "2.prems" have c: "cell r0 0 = cell r0' 0"
    and m: "map (\<lambda>row. cell row 0) rs = map (\<lambda>row. cell row 0) rs'" by auto
  show ?case
  proof (cases "cell r0 0 = Some orderId")
    case True
    with c rows' show ?thesis by simp
  next
    case False
    from "2.IH" [OF False m] False c rows' show ?thesis by simp
  qed
qed

lemma findRow_cong:
  assumes "initialized w' = initialized w"
    and "map (\<lambda>row. cell row 0) (sheet w') = map (\<lambda>row. cell row 0) (sheet w)"
  shows "findRowByOrderId w' f oid = findRowByOrderId w f oid"
proof -
  have "map (\<lambda>row. cell row 0) (map (take 1) (sheet w'))
      = map (\<lambda>row. cell row 0) (map (take 1) (sheet w))"
    using assms(2) by (simp add: o_def cell_take1)
  from find_loop_cong [OF this] assms(1) show ?thesis
    by (simp add: findRowByOrderId_def findRowByOrderId_try_def values_get_A_def)
qed

subsection \<open>Assignments to the cells of a row\<close>

lemma cell_js_set: "cell (js_set row i v) j = (if j = i then Some v
   else if j < i \<and> length row \<le> j then Some [] else cell row j)"
  by (auto simp: cell_def js_set_def nth_append)

lemma cell_or_empty_js_set:
  "cell_or_empty (js_set row i v) j = (if j = i then v else cell_or_empty row j)"
  by (simp add: cell_or_empty_def cell_js_set) (auto simp: cell_def)

lemma cell0_js_set: "row \<noteq> [] \<Longrightarrow> 0 < i \<Longrightarrow> cell (js_set row i v) 0 = cell row 0"
  by (simp add: cell_js_set)

lemma js_set_nonempty: "js_set row i v \<noteq> []"
  by (auto simp: js_set_def)

lemma cell0_update:
  assumes "k < length rows" and "cell row' 0 = cell (rows ! k) 0"
  shows "map (\<lambda>row. cell row 0) (rows[k := row']) = map (\<lambda>row. cell row 0) rows"
  using assms by (simp add: map_update list_update_same_conv)

subsection \<open>updateOrderStatus\<close>

lemma updateOrderStatus_not_found:
  assumes "findRowByOrderId w (fails 0) oid = - 1"
  shows "updateOrderStatus w fails now oid status data = (False, w)"
  using assms by (simp add: updateOrderStatus_def updateOrderStatus_try_def)

lemma updateOrderStatus_found:
  assumes "findRowByOrderId w False oid = r" and "r \<noteq> - 1"
  shows "updateOrderStatus w fails now oid status data =
     (if fails 0 \<or> fails 1 \<or> fails 2 then (False, w)
      else (True, w\<lparr>sheet := (sheet w)[nat r - 1 := status_row now status data (row_at w r)],
                    writes := Suc (writes w)\<rparr>))"
proof (cases "fails 0")
  case True
  then have "findRowByOrderId w (fails 0) oid = - 1" by (simp add: findRow_fault)
  with True show ?thesis by (simp add: updateOrderStatus_not_found)
next
  case False
  from findRow_found [OF assms] have i: "initialized w" and r: "0 < r" "nat r \<le> length (sheet w)"
    and c: "cell (row_at w r) 0 = Some oid" by auto
  from c have ne: "sheet w ! (nat r - 1) \<noteq> []" by (auto simp: cell_def row_at_def split: if_splits)
  from r have r': "0 < nat r" by simp
  show ?thesis
    using assms False i r r' ne
    by (simp add: updateOrderStatus_def updateOrderStatus_try_def values_get_row_def
          values_update_row_def status_row_def row_at_def Let_def split: option.splits)
qed

lemma confirmed_at_status_row:
  "confirmed_at (status_row now status data row) =
     (case confirmedAt data of
        Some c \<Rightarrow> if c \<noteq> [] then c
                  else if status = ''CONFIRMED'' \<and> confirmed_at row = [] then now
                  else confirmed_at row
      | None \<Rightarrow> if status = ''CONFIRMED'' \<and> confirmed_at row = [] then now
                else confirmed_at row)"
  by (auto simp: confirmed_at_def status_row_def cell_or_empty_js_set Let_def
        split: option.splits)

lemma cell0_status_row:
  "row \<noteq> [] \<Longrightarrow> cell (status_row now status data row) 0 = cell row 0"
  by (simp add: status_row_def cell0_js_set js_set_nonempty Let_def split: option.splits)

text \<open>What a call of updateOrderStatus does to the confirmed_at of the row it found.\<close>

lemma updateOrderStatus_confirmed_at:
  assumes "findRowByOrderId w False oid = r" and "r \<noteq> - 1"
  shows "confirmed_at (row_at (snd (updateOrderStatus w fails now oid status data)) r) =
     (if fails 0 \<or> fails 1 \<or> fails 2 then confirmed_at (row_at w r)
      else confirmed_at (status_row now status data (row_at w r)))"
proof -
  from findRow_found [OF assms] have "0 < r" "nat r \<le> length (sheet w)" by auto
  then have "nat r - 1 < length (sheet w)" by simp
  then show ?thesis
    by (simp add: updateOrderStatus_found [OF assms] row_at_def)
qed

lemma updateOrderStatus_keeps_position:
  assumes "findRowByOrderId w False oid = r" and "r \<noteq> - 1"
  shows "findRowByOrderId (snd (updateOrderStatus w fails now oid status data)) False oid' =
         findRowByOrderId w False oid'"
proof (cases "fails 0 \<or> fails 1 \<or> fails 2")
  case True
  then show ?thesis by (simp add: updateOrderStatus_found [OF assms])
next
  case False
  from findRow_found [OF assms] have r: "0 < r" "nat r \<le> length (sheet w)"
    and c: "cell (row_at w r) 0 = Some oid" by auto
  from r have k: "nat r - 1 < length (sheet w)" by simp
  from c have ne: "row_at w r \<noteq> []" by (auto simp: cell_def split: if_splits)
  let ?w' = "w\<lparr>sheet := (sheet w)[nat r - 1 := status_row now status data (row_at w r)],
                writes := Suc (writes w)\<rparr>"
  have "cell (status_row now status data (row_at w r)) 0 = cell (sheet w ! (nat r - 1)) 0"
    using ne by (simp add: cell0_status_row) (simp add: row_at_def)
  from cell0_update [OF k this]
  have "findRowByOrderId ?w' False oid' = findRowByOrderId w False oid'"
    by (intro findRow_cong) simp_all
  with False show ?thesis
    by (simp add: updateOrderStatus_found [OF assms])
qed

text \<open>
  Claim C2. Let the row of an order be found at row \<open>r\<close>. A call of updateOrderStatus with
  the status CONFIRMED and no override that the store answers succeeds and leaves
  confirmed_at at its value when that is not empty, and sets it to the current time when
  it is empty; since the current time is not the empty string, a second call of the same
  kind, at any time and whatever the store answers, leaves confirmed_at as the first call
  left it; and a call with the status PENDING_CONFIRMATION leaves an empty confirmed_at
  empty.
\<close>

theorem confirmed_at_set_once:
  assumes "findRowByOrderId w False oid = r" and "r \<noteq> - 1" and "now \<noteq> []"
    and "w1 = snd (updateOrderStatus w no_faults now oid ''CONFIRMED'' no_data)"
  shows "fst (updateOrderStatus w no_faults now oid ''CONFIRMED'' no_data) \<and>
         confirmed_at (row_at w1 r) =
           (if confirmed_at (row_at w r) = [] then now else confirmed_at (row_at w r)) \<and>
         (\<forall>fails' now'.
            confirmed_at (row_at (snd (updateOrderStatus w1 fails' now' oid ''CONFIRMED'' no_data)) r)
              = confirmed_at (row_at w1 r)) \<and>
         (\<forall>fails' now'. confirmed_at (row_at w r) = [] \<longrightarrow>
            confirmed_at (row_at (snd (updateOrderStatus w fails' now' oid
              ''PENDING_CONFIRMATION'' no_data)) r) = [])"
proof -
  have ok: "fst (updateOrderStatus w no_faults now oid ''CONFIRMED'' no_data)"
    by (simp add: updateOrderStatus_found [OF assms(1,2)] no_faults_def)
  have c1: "confirmed_at (row_at w1 r) =
      (if confirmed_at (row_at w r) = [] then now else confirmed_at (row_at w r))"
    unfolding assms(4)
    by (simp add: updateOrderStatus_confirmed_at [OF assms(1,2)] confirmed_at_status_row
          no_faults_def no_data_def)
  with assms(3) have ne: "confirmed_at (row_at w1 r) \<noteq> []" by simp
  have f1: "findRowByOrderId w1 False oid = r"
    unfolding assms(4) using assms(1)
    by (simp add: updateOrderStatus_keeps_position [OF assms(1,2)])
  have c2: "confirmed_at (row_at (snd (updateOrderStatus w1 fails' now' oid ''CONFIRMED'' no_data)) r)
      = confirmed_at (row_at w1 r)" for fails' now'
    using ne
    by (simp add: updateOrderStatus_confirmed_at [OF f1 assms(2)] confirmed_at_status_row
          no_data_def)
  have c3: "confirmed_at (row_at (snd (updateOrderStatus w fails' now' oid
              ''PENDING_CONFIRMATION'' no_data)) r) = []"
    if "confirmed_at (row_at w r) = []" for fails' now'
    using that
    by (simp add: updateOrderStatus_confirmed_at [OF assms(1,2)] confirmed_at_status_row
          no_data_def)
  from ok c1 c2 c3 show ?thesis by blast
qed

theorem confirmed_at_set_once_witness:
  "findRowByOrderId ledger False ''o1'' = 3 \<and> confirmed_at (row_at ledger 3) = [] \<and>
   fst (updateOrderStatus ledger no_faults ''2024-01-04T12:00:00.000Z'' ''o1'' ''CONFIRMED'' no_data) \<and>
   confirmed_at (row_at (snd (updateOrderStatus ledger no_faults ''2024-01-04T12:00:00.000Z''
      ''o1'' ''CONFIRMED'' no_data)) 3) = ''2024-01-04T12:00:00.000Z'' \<and>
   confirmed_at (row_at (snd (updateOrderStatus
      (snd (updateOrderStatus ledger no_faults ''2024-01-04T12:00:00.000Z'' ''o1'' ''CONFIRMED'' no_data))
      no_faults ''2024-01-05T08:00:00.000Z'' ''o1'' ''CONFIRMED'' no_data)) 3)
     = ''2024-01-04T12:00:00.000Z'' \<and>
   confirmed_at (row_at (snd (updateOrderStatus ledger no_faults ''2024-01-04T12:00:00.000Z''
      ''o1'' ''PENDING_CONFIRMATION'' no_data)) 3) = []"
proof -
  let ?t = "''2024-01-04T12:00:00.000Z''"
  have f: "findRowByOrderId ledger False ''o1'' = 3" by code_simp
  have e: "confirmed_at (row_at ledger 3) = []" by code_simp
  have n: "(3::int) \<noteq> - 1" "?t \<noteq> []" by simp_all
  from confirmed_at_set_once [OF f n refl] e f show ?thesis by simp
qed

subsection \<open>The override of confirmed_at\<close>

text \<open>
  With an override that is the empty string, the test \<open>if (additionalData.confirmedAt)\<close>
  is false and nothing is written from the override: the first confirmation of \<open>o1\<close>
  stores the current time, and on the confirmed order the stored time stays.
\<close>

theorem override_empty_counterexample:
  "findRowByOrderId ledger False ''o1'' = 3 \<and>
   confirmed_at (row_at (snd (updateOrderStatus ledger no_faults ''2024-01-04T12:00:00.000Z''
      ''o1'' ''CONFIRMED'' \<lparr>confirmedAt = Some []\<rparr>)) 3) = ''2024-01-04T12:00:00.000Z'' \<and>
   confirmed_at (row_at (snd (updateOrderStatus
      (snd (updateOrderStatus ledger no_faults ''2024-01-04T12:00:00.000Z'' ''o1'' ''CONFIRMED'' no_data))
      no_faults ''2024-01-05T08:00:00.000Z'' ''o1'' ''SHIPPED'' \<lparr>confirmedAt = Some []\<rparr>)) 3)
     = ''2024-01-04T12:00:00.000Z''"
  by code_simp

text \<open>
  Claim C3, amended. For every call of updateOrderStatus that finds the row and that the
  store answers, an override whose confirmedAt is a non-empty string is written to
  confirmed_at, whatever the current confirmed_at and the new status are; it takes
  precedence over the time set at the first confirmation.
\<close>

theorem override_nonempty_wins:
  assumes "findRowByOrderId w False oid = r" and "r \<noteq> - 1" and "c \<noteq> []"
  shows "fst (updateOrderStatus w no_faults now oid status \<lparr>confirmedAt = Some c\<rparr>) \<and>
         confirmed_at (row_at (snd (updateOrderStatus w no_faults now oid status
            \<lparr>confirmedAt = Some c\<rparr>)) r) = c"
proof -
  have "fst (updateOrderStatus w no_faults now oid status \<lparr>confirmedAt = Some c\<rparr>)"
    by (simp add: updateOrderStatus_found [OF assms(1,2)] no_faults_def)
  moreover have "confirmed_at (row_at (snd (updateOrderStatus w no_faults now oid status
            \<lparr>confirmedAt = Some c\<rparr>)) r) = c"
    using assms(3)
    by (simp add: updateOrderStatus_confirmed_at [OF assms(1,2)] confirmed_at_status_row
          no_faults_def)
  ultimately show ?thesis by simp
qed

theorem override_nonempty_wins_witness:
  "findRowByOrderId confirmed_ledger False ''o1'' = 3 \<and>
   confirmed_at (row_at confirmed_ledger 3) = ''2024-01-04T12:00:00.000Z'' \<and>
   fst (updateOrderStatus confirmed_ledger no_faults ''2024-01-05T08:00:00.000Z'' ''o1''
      ''SHIPPED'' \<lparr>confirmedAt = Some ''2023-12-31T23:59:59.000Z''\<rparr>) \<and>
   confirmed_at (row_at (snd (updateOrderStatus confirmed_ledger no_faults
      ''2024-01-05T08:00:00.000Z'' ''o1'' ''SHIPPED''
      \<lparr>confirmedAt = Some ''2023-12-31T23:59:59.000Z''\<rparr>)) 3) = ''2023-12-31T23:59:59.000Z''"
proof -
  have f: "findRowByOrderId confirmed_ledger False ''o1'' = 3" by code_simp
  have e: "confirmed_at (row_at confirmed_ledger 3) = ''2024-01-04T12:00:00.000Z''" by code_simp
  have n: "(3::int) \<noteq> - 1" "''2023-12-31T23:59:59.000Z'' \<noteq> []" by simp_all
  from override_nonempty_wins [OF f n] e f show ?thesis by simp
qed

subsection \<open>The header row\<close>

text \<open>
  Claim C4. findRowByOrderId is to scan from the first data row, so that the header row
  is never matched. Its loop starts at the first row of column A, which is the header
  row: on a ledger whose first row is the header row of ensureHeaders, the identifier
  \<open>order_id\<close> is found at row 1. getPendingOrderByPhone, in contrast, reads from row 2 on.
\<close>

theorem findRowByOrderId_matches_header:
  "sheet ledger ! 0 = headers \<and> findRowByOrderId ledger False ''order_id'' = 1"
  by code_simp

subsection \<open>updateLastMessage and the unknown order\<close>

lemma updateLastMessage_not_found:
  assumes "findRowByOrderId w (fails 0) oid = - 1"
  shows "updateLastMessage w fails oid message = (False, w)"
  using assms by (simp add: updateLastMessage_def updateLastMessage_try_def)

lemma updateLastMessage_found:
  assumes "findRowByOrderId w False oid = r" and "r \<noteq> - 1"
  shows "updateLastMessage w fails oid message =
     (if fails 0 \<or> fails 1 then (False, w)
      else (True, w\<lparr>sheet := (sheet w)[nat r - 1 := js_set (row_at w r) 7 message],
                    writes := Suc (writes w)\<rparr>))"
proof (cases "fails 0")
  case True
  then have "findRowByOrderId w (fails 0) oid = - 1" by (simp add: findRow_fault)
  with True show ?thesis by (simp add: updateLastMessage_not_found)
next
  case False
  from findRow_found [OF assms] have i: "initialized w" by simp
  show ?thesis
    using assms False i
    by (simp add: updateLastMessage_def updateLastMessage_try_def values_update_H_def
          row_at_def Let_def)
qed

text \<open>
  When no row of column A, the header row included, holds the order_id, both methods
  return false and leave the service and the store as they were, whatever the store
  answers.
\<close>

lemma not_found_no_write:
  assumes "\<forall>row\<in>set (sheet w). cell row 0 \<noteq> Some oid"
  shows "updateOrderStatus w fails now oid status data = (False, w) \<and>
         updateLastMessage w fails oid message = (False, w)"
proof -
  from assms have "findRowByOrderId w (fails 0) oid = - 1" by (simp add: findRow_none)
  then show ?thesis by (simp add: updateOrderStatus_not_found updateLastMessage_not_found)
qed

text \<open>
  Claim C7. For an order_id that no stored record has, updateOrderStatus and
  updateLastMessage are to return false and to write nothing. With the header row of
  ensureHeaders in row 1, the identifier \<open>order_id\<close> is the identifier of no data row of
  the ledger, and yet both methods find row 1, return true and write to the header row:
  updateOrderStatus puts the status in G1, updateLastMessage the message in H1.
\<close>

theorem unknown_order_id_writes_header:
  "data_rows ledger = [row_o2, row_o1, row_o3] \<and>
   cell row_o2 0 \<noteq> Some ''order_id'' \<and> cell row_o1 0 \<noteq> Some ''order_id'' \<and>
   cell row_o3 0 \<noteq> Some ''order_id'' \<and>
   updateOrderStatus ledger no_faults ''2024-01-04T12:00:00.000Z'' ''order_id'' ''CONFIRMED'' no_data
     = (True, ledger\<lparr>sheet := [headers[6 := ''CONFIRMED''], row_o2, row_o1, row_o3],
                      writes := 1\<rparr>) \<and>
   updateLastMessage ledger no_faults ''order_id'' ''yes please''
     = (True, ledger\<lparr>sheet := [headers[7 := ''yes please''], row_o2, row_o1, row_o3],
                      writes := 1\<rparr>)"
  by code_simp

text \<open>
  Claim C8. When updateLastMessage finds the row and the store answers, it returns true
  after one write; the cell of last_customer_message of that row holds the message; every
  other field of the row has the content it had, and every cell the row had is the same
  cell; every other row of the sheet is unchanged.
\<close>

theorem updateLastMessage_frame:
  assumes "findRowByOrderId w False oid = r" and "r \<noteq> - 1"
    and "w' = snd (updateLastMessage w no_faults oid message)"
  shows "fst (updateLastMessage w no_faults oid message) \<and>
         initialized w' = initialized w \<and> writes w' = Suc (writes w) \<and>
         length (sheet w') = length (sheet w) \<and>
         cell (row_at w' r) 7 = Some message \<and>
         (\<forall>j. j \<noteq> 7 \<longrightarrow> cell_or_empty (row_at w' r) j = cell_or_empty (row_at w r) j) \<and>
         (\<forall>j<length (row_at w r). j \<noteq> 7 \<longrightarrow> cell (row_at w' r) j = cell (row_at w r) j) \<and>
         (\<forall>k<length (sheet w). k \<noteq> nat r - 1 \<longrightarrow> sheet w' ! k = sheet w ! k)"
proof -
  from findRow_found [OF assms(1,2)] have "0 < r" "nat r \<le> length (sheet w)" by auto
  then have k: "nat r - 1 < length (sheet w)" by simp
  have w': "w' = w\<lparr>sheet := (sheet w)[nat r - 1 := js_set (row_at w r) 7 message],
                    writes := Suc (writes w)\<rparr>"
    unfolding assms(3) by (simp add: updateLastMessage_found [OF assms(1,2)] no_faults_def)
  have row: "row_at w' r = js_set (row_at w r) 7 message"
    using k by (simp add: w' row_at_def)
  have "fst (updateLastMessage w no_faults oid message)"
    by (simp add: updateLastMessage_found [OF assms(1,2)] no_faults_def)
  moreover have "initialized w' = initialized w" "writes w' = Suc (writes w)"
    "length (sheet w') = length (sheet w)" by (simp_all add: w')
  moreover have "cell (row_at w' r) 7 = Some message"
    by (simp add: row cell_js_set)
  moreover have "\<forall>j. j \<noteq> 7 \<longrightarrow> cell_or_empty (row_at w' r) j = cell_or_empty (row_at w r) j"
    by (simp add: row cell_or_empty_js_set)
  moreover have "\<forall>j<length (row_at w r). j \<noteq> 7 \<longrightarrow> cell (row_at w' r) j = cell (row_at w r) j"
    by (simp add: row cell_js_set)
  moreover have "\<forall>k<length (sheet w). k \<noteq> nat r - 1 \<longrightarrow> sheet w' ! k = sheet w ! k"
    by (simp add: w')
  ultimately show ?thesis by blast
qed

theorem updateLastMessage_frame_witness:
  "findRowByOrderId ledger False ''o1'' = 3 \<and>
   fst (updateLastMessage ledger no_faults ''o1'' ''yes please'') \<and>
   writes (snd (updateLastMessage ledger no_faults ''o1'' ''yes please'')) = 1 \<and>
   cell (row_at (snd (updateLastMessage ledger no_faults ''o1'' ''yes please'')) 3) 7
     = Some ''yes please'' \<and>
   cell (row_at (snd (updateLastMessage ledger no_faults ''o1'' ''yes please'')) 3) 6
     = Some ''PENDING_CONFIRMATION'' \<and>
   sheet (snd (updateLastMessage ledger no_faults ''o1'' ''yes please'')) ! 1 = row_o2"
proof -
  define w' where "w' = snd (updateLastMessage ledger no_faults ''o1'' ''yes please'')"
  have f: "findRowByOrderId ledger False ''o1'' = 3" by code_simp
  have n: "(3::int) \<noteq> - 1" by simp
  have l: "length (sheet ledger) = 4" "sheet ledger ! Suc 0 = row_o2" "row_at ledger 3 = row_o1"
    "writes ledger = 0" "length row_o1 = 10" "cell row_o1 6 = Some ''PENDING_CONFIRMATION''"
    by (simp_all add: ledger_def row_at_def row_o1_def cell_def)
  note fr = updateLastMessage_frame [OF f n w'_def]
  from fr have ok: "fst (updateLastMessage ledger no_faults ''o1'' ''yes please'')"
    and wr: "writes w' = 1" and c7: "cell (row_at w' 3) 7 = Some ''yes please''"
    by (simp_all add: l)
  from fr have "\<forall>j<length (row_at ledger 3). j \<noteq> 7 \<longrightarrow>
      cell (row_at w' 3) j = cell (row_at ledger 3) j" by blast
  then have "(6::nat) < length (row_at ledger 3) \<longrightarrow> 6 \<noteq> (7::nat) \<longrightarrow>
      cell (row_at w' 3) 6 = cell (row_at ledger 3) 6" by blast
  then have c6: "cell (row_at w' 3) 6 = Some ''PENDING_CONFIRMATION''" by (simp add: l)
  from fr have "\<forall>k<length (sheet ledger). k \<noteq> nat 3 - 1 \<longrightarrow> sheet w' ! k = sheet ledger ! k"
    by blast
  then have "(1::nat) < length (sheet ledger) \<longrightarrow> 1 \<noteq> nat 3 - 1 \<longrightarrow>
      sheet w' ! 1 = sheet ledger ! 1" by blast
  then have s1: "sheet w' ! 1 = row_o2" by (simp add: l)
  from ok wr c7 c6 s1
  have "fst (updateLastMessage ledger no_faults ''o1'' ''yes please'') \<and> writes w' = 1 \<and>
      cell (row_at w' 3) 7 = Some ''yes please'' \<and>
      cell (row_at w' 3) 6 = Some ''PENDING_CONFIRMATION'' \<and> sheet w' ! 1 = row_o2" by simp
  with f show ?thesis unfolding w'_def by simp
qed

subsection \<open>Failure signals\<close>

lemma updateOrderStatus_fault:
  assumes "fails 0 \<or> fails 1 \<or> fails 2"
  shows "updateOrderStatus w fails now oid status data = (False, w)"
proof (cases "findRowByOrderId w False oid = - 1")
  case True
  then have "findRowByOrderId w (fails 0) oid = - 1" by (auto simp: findRow_none)
  then show ?thesis by (rule updateOrderStatus_not_found)
next
  case False
  from updateOrderStatus_found [OF refl False] assms show ?thesis by simp
qed

lemma updateLastMessage_fault:
  assumes "fails 0 \<or> fails 1"
  shows "updateLastMessage w fails oid message = (False, w)"
proof (cases "findRowByOrderId w False oid = - 1")
  case True
  then have "findRowByOrderId w (fails 0) oid = - 1" by (auto simp: findRow_none)
  then show ?thesis by (rule updateLastMessage_not_found)
next
  case False
  from updateLastMessage_found [OF refl False] assms show ?thesis by simp
qed

text \<open>
  Claim C9. Each of addOrder, updateOrderStatus, updateLastMessage and
  getPendingOrderByPhone returns a value: when the service is not initialized it returns
  false (or no order) and changes nothing; when a call of the store throws, and whenever
  the body of its \<open>try\<close> block raises any exception, it returns the same failure
  value and the state is unchanged.
\<close>

theorem operations_signal_failure:
  "(\<not> initialized w \<longrightarrow>
      addOrder w f now ord = (False, w) \<and>
      updateOrderStatus w fails now oid status data = (False, w) \<and>
      updateLastMessage w fails oid message = (False, w) \<and>
      getPendingOrderByPhone w f p = None) \<and>
   (f \<longrightarrow> addOrder w f now ord = (False, w) \<and> getPendingOrderByPhone w f p = None) \<and>
   (fails 0 \<or> fails 1 \<or> fails 2 \<longrightarrow>
      updateOrderStatus w fails now oid status data = (False, w)) \<and>
   (fails 0 \<or> fails 1 \<longrightarrow> updateLastMessage w fails oid message = (False, w)) \<and>
   (\<forall>e. addOrder_try w f now ord = Inl e \<longrightarrow> addOrder w f now ord = (False, w)) \<and>
   (\<forall>e. updateOrderStatus_try w fails now oid status data = Inl e \<longrightarrow>
      updateOrderStatus w fails now oid status data = (False, w)) \<and>
   (\<forall>e. updateLastMessage_try w fails oid message = Inl e \<longrightarrow>
      updateLastMessage w fails oid message = (False, w)) \<and>
   (\<forall>e. getPendingOrderByPhone_try w f p = Inl e \<longrightarrow> getPendingOrderByPhone w f p = None)"
proof -
  have a: "\<not> initialized w \<longrightarrow>
      addOrder w f now ord = (False, w) \<and>
      updateOrderStatus w fails now oid status data = (False, w) \<and>
      updateLastMessage w fails oid message = (False, w) \<and>
      getPendingOrderByPhone w f p = None"
    by (simp add: addOrder_def updateOrderStatus_def updateLastMessage_def
          getPendingOrderByPhone_def)
  have b: "f \<longrightarrow> addOrder w f now ord = (False, w) \<and> getPendingOrderByPhone w f p = None"
    by (simp add: addOrder_def addOrder_try_def values_append_def getPendingOrderByPhone_def
          getPendingOrderByPhone_try_def values_get_data_def)
  have c: "fails 0 \<or> fails 1 \<or> fails 2 \<longrightarrow>
      updateOrderStatus w fails now oid status data = (False, w)"
    by (simp add: updateOrderStatus_fault)
  have d: "fails 0 \<or> fails 1 \<longrightarrow> updateLastMessage w fails oid message = (False, w)"
    by (simp add: updateLastMessage_fault)
  have e1: "\<forall>e. addOrder_try w f now ord = Inl e \<longrightarrow> addOrder w f now ord = (False, w)"
    by (auto simp: addOrder_def)
  have e2: "\<forall>e. updateOrderStatus_try w fails now oid status data = Inl e \<longrightarrow>
      updateOrderStatus w fails now oid status data = (False, w)"
    by (auto simp: updateOrderStatus_def)
  have e3: "\<forall>e. updateLastMessage_try w fails oid message = Inl e \<longrightarrow>
      updateLastMessage w fails oid message = (False, w)"
    by (auto simp: updateLastMessage_def)
  have e4: "\<forall>e. getPendingOrderByPhone_try w f p = Inl e \<longrightarrow>
      getPendingOrderByPhone w f p = None"
    by (auto simp: getPendingOrderByPhone_def)
  from a b c d e1 e2 e3 e4 show ?thesis by blast
qed

theorem operations_signal_failure_witness:
  "\<not> initialized offline \<and>
   addOrder offline False ''2024-01-04T12:00:00.000Z'' shirt_order = (False, offline) \<and>
   updateOrderStatus offline no_faults ''2024-01-04T12:00:00.000Z'' ''o1'' ''CONFIRMED'' no_data
     = (False, offline) \<and>
   updateLastMessage offline no_faults ''o1'' ''yes please'' = (False, offline) \<and>
   getPendingOrderByPhone offline False ''5551234567'' = None \<and>
   initialized ledger \<and>
   addOrder_try ledger True ''2024-01-04T12:00:00.000Z'' shirt_order = Inl StoreError \<and>
   addOrder ledger True ''2024-01-04T12:00:00.000Z'' shirt_order = (False, ledger) \<and>
   getPendingOrderByPhone_try ledger True ''5551234567'' = Inl StoreError \<and>
   getPendingOrderByPhone ledger True ''5551234567'' = None \<and>
   updateOrderStatus_try ledger after_first ''2024-01-04T12:00:00.000Z'' ''o1'' ''CONFIRMED'' no_data
     = Inl StoreError \<and>
   updateOrderStatus ledger after_first ''2024-01-04T12:00:00.000Z'' ''o1'' ''CONFIRMED'' no_data
     = (False, ledger) \<and>
   updateLastMessage_try ledger after_first ''o1'' ''yes please'' = Inl StoreError \<and>
   updateLastMessage ledger after_first ''o1'' ''yes please'' = (False, ledger)"
proof -
  let ?t = "''2024-01-04T12:00:00.000Z''"
  have off: "\<not> initialized offline" by (simp add: offline_def)
  have on: "initialized ledger" by (simp add: ledger_def)
  have t1: "addOrder_try ledger True ?t shirt_order = Inl StoreError"
    by (simp add: addOrder_try_def values_append_def)
  have t2: "getPendingOrderByPhone_try ledger True ''5551234567'' = Inl StoreError"
    by (simp add: getPendingOrderByPhone_try_def values_get_data_def)
  have t3: "updateOrderStatus_try ledger after_first ?t ''o1'' ''CONFIRMED'' no_data
     = Inl StoreError" by code_simp
  have t4: "updateLastMessage_try ledger after_first ''o1'' ''yes please'' = Inl StoreError"
    by code_simp
  have af: "after_first 1" by (simp add: after_first_def)
  from operations_signal_failure [of offline False ?t shirt_order no_faults "''o1''"
      "''CONFIRMED''" no_data "''yes please''" "''5551234567''"] off
    operations_signal_failure [of ledger True ?t shirt_order after_first "''o1''"
      "''CONFIRMED''" no_data "''yes please''" "''5551234567''"] on t1 t2 t3 t4 af
  show ?thesis by simp
qed

subsection \<open>addOrder\<close>

lemma find_none: "(\<forall>x\<in>set xs. \<not> P x) \<Longrightarrow> find P xs = None"
  by (induction xs) auto

lemma find_first: "P x \<Longrightarrow> (\<forall>y\<in>set pre. \<not> P y) \<Longrightarrow> find P (pre @ x # post) = Some x"
  by (induction pre) auto

lemma item_summary_plain:
  assumes "\<forall>opts. options it = Some opts \<longrightarrow> (\<forall>opt\<in>set opts. opt_name opt \<noteq> Str ''Size'')"
  shows "item_summary it = to_string (title it) @ '' x'' @ to_string (quantity it)"
proof (cases "options it")
  case None
  then show ?thesis by (simp add: item_summary_def)
next
  case (Some opts)
  with assms have "find (\<lambda>opt. opt_name opt = Str ''Size'') opts = None"
    by (intro find_none) simp
  with Some show ?thesis by (simp add: item_summary_def)
qed

lemma item_summary_sized:
  assumes "options it = Some (pre @ opt # post)" and "opt_name opt = Str ''Size''"
    and "\<forall>p\<in>set pre. opt_name p \<noteq> Str ''Size''"
  shows "item_summary it =
     to_string (title it) @ '' ('' @ to_string (opt_value opt) @ '') x'' @ to_string (quantity it)"
proof -
  have "find (\<lambda>opt. opt_name opt = Str ''Size'') (pre @ opt # post) = Some opt"
    using assms(2,3) by (intro find_first) simp_all
  with assms(1) show ?thesis by (simp add: item_summary_def)
qed

lemma order_row_cells:
  "length (order_row now ord) = 10"
  "order_row now ord ! 0 = ident ord"
  "order_row now ord ! 1 = orderSerial ord"
  "order_row now ord ! 2 = js_or (customer_name_of ord) (Str [])"
  "order_row now ord ! 3 =
     js_or (shipping_phone_of ord) (js_or (customer_phone_of ord) (Str []))"
  "order_row now ord ! 4 = js_or (amount_of ord) (Num 0)"
  "order_row now ord ! 5 =
     js_or (case items ord of None \<Rightarrow> Undefined
            | Some its \<Rightarrow> Str (join '', '' (map item_summary its))) (Str [])"
  "order_row now ord ! 6 = Str ''PENDING_CONFIRMATION''"
  "order_row now ord ! 7 = Str []"
  "order_row now ord ! 8 = Str []"
  "order_row now ord ! 9 = Str now"
  by (simp_all add: order_row_def customer_name_of_def customer_phone_of_def
        shipping_phone_of_def amount_of_def Let_def)

lemma addOrder_ok:
  "initialized w \<Longrightarrow> \<not> f \<Longrightarrow>
   addOrder w f now ord =
     (True, w\<lparr>sheet := sheet w @ [map cell_text (order_row now ord)],
               writes := Suc (writes w)\<rparr>)"
  by (simp add: addOrder_def addOrder_try_def values_append_def)

lemma join_Cons: "join sep (x # xs) = x @ concat (map (\<lambda>y. sep @ y) xs)"
  by (induction xs arbitrary: x) auto

lemma digit_char_facts:
  assumes "d < 10"
  shows "is_digit (digit_char d)" and "of_char (digit_char d) - 48 = d"
    and "digit_char d = CHR ''0'' \<longleftrightarrow> d = 0"
proof -
  from assms consider "d = 0" | "d = 1" | "d = 2" | "d = 3" | "d = 4" | "d = 5" | "d = 6"
    | "d = 7" | "d = 8" | "d = 9" by atomize_elim arith
  then have "is_digit (digit_char d) \<and> of_char (digit_char d) - 48 = d \<and>
      (digit_char d = CHR ''0'' \<longleftrightarrow> d = 0)"
    by cases (simp_all add: digit_char_def is_digit_def)
  then show "is_digit (digit_char d)" and "of_char (digit_char d) - 48 = d"
    and "digit_char d = CHR ''0'' \<longleftrightarrow> d = 0" by simp_all
qed

lemma digits_value_snoc: "digits_value (ds @ [c]) = 10 * digits_value ds + (of_char c - 48)"
  by (simp add: digits_value_def)

lemma show_nat_decimal:
  "show_nat n \<noteq> [] \<and> (\<forall>c\<in>set (show_nat n). is_digit c) \<and> digits_value (show_nat n) = n \<and>
   (hd (show_nat n) = CHR ''0'' \<longrightarrow> n = 0)"
proof (induction n rule: show_nat.induct)
  case (1 n)
  show ?case
  proof (cases "n < 10")
    case True
    then have s: "show_nat n = [digit_char n]" by (simp add: show_nat.simps)
    from digit_char_facts [OF True] show ?thesis
      by (simp add: s digits_value_def)
  next
    case False
    then have s: "show_nat n = show_nat (n div 10) @ [digit_char (n mod 10)]"
      by (subst show_nat.simps) simp
    have m: "n mod 10 < 10" by simp
    from "1.IH" [OF False] have ih: "show_nat (n div 10) \<noteq> []"
      "\<forall>c\<in>set (show_nat (n div 10)). is_digit c" "digits_value (show_nat (n div 10)) = n div 10"
      "hd (show_nat (n div 10)) = CHR ''0'' \<longrightarrow> n div 10 = 0" by simp_all
    from False have nz: "n div 10 \<noteq> 0" by simp
    from ih nz digit_char_facts [OF m] show ?thesis
      by (simp add: s digits_value_snoc)
  qed
qed

lemma show_nat_canonical: "canonical_digits (show_nat n)"
proof -
  have "1 < length (show_nat n) \<longrightarrow> hd (show_nat n) \<noteq> CHR ''0''"
  proof (cases "n < 10")
    case True
    then show ?thesis by (simp add: show_nat.simps)
  next
    case False
    with show_nat_decimal [of n] show ?thesis by auto
  qed
  with show_nat_decimal [of n] show ?thesis by (simp add: canonical_digits_def)
qed

lemma show_int_decimal: "is_decimal_of (show_int i) i"
  using show_nat_decimal [of "nat i"] show_nat_decimal [of "nat (- i)"]
    show_nat_canonical [of "nat i"] show_nat_canonical [of "nat (- i)"]
  by (simp add: is_decimal_of_def show_int_def)

text \<open>
  Claim C5. For an order with an items collection, the items_summary of the row is the
  summaries of the items joined with a comma and a space: the first summary, and each
  further one after a comma and a space. The summary of an item without an option named
  Size is its title, \<open>x\<close> and its quantity, and that of an item whose first option named
  Size is \<open>opt\<close> has the value of \<open>opt\<close> in parentheses after the title; in them a string
  stands as it is, an integer as its decimal numeral, any other number as the text the
  language gives it, and a missing title or quantity as \<open>undefined\<close> or \<open>null\<close>. The row
  has ten cells, its status is PENDING_CONFIRMATION, its
  created_at the current time, its confirmed_at and last_customer_message the empty
  string; when the service is initialized and the store answers, this row is appended to
  the sheet.
\<close>

theorem addOrder_items_summary:
  assumes "items ord = Some its"
  shows "order_row now ord ! 5 = Str (join '', '' (map item_summary its)) \<and>
   order_row now ord ! 5 =
     Str (case its of [] \<Rightarrow> []
          | it # rest \<Rightarrow> item_summary it @ concat (map (\<lambda>i. '', '' @ item_summary i) rest)) \<and>
   (\<forall>it. (\<forall>opts. options it = Some opts \<longrightarrow> (\<forall>opt\<in>set opts. opt_name opt \<noteq> Str ''Size'')) \<longrightarrow>
      item_summary it = to_string (title it) @ '' x'' @ to_string (quantity it)) \<and>
   (\<forall>it pre opt post.
      options it = Some (pre @ opt # post) \<and> opt_name opt = Str ''Size'' \<and>
      (\<forall>p\<in>set pre. opt_name p \<noteq> Str ''Size'') \<longrightarrow>
      item_summary it =
        to_string (title it) @ '' ('' @ to_string (opt_value opt) @ '') x'' @
        to_string (quantity it)) \<and>
   (\<forall>s. to_string (Str s) = s) \<and>
   (\<forall>n. is_decimal_of (to_string (Num n)) (sint n)) \<and>
   (\<forall>d. to_string (Other d) = js_text d) \<and>
   to_string Undefined = ''undefined'' \<and> to_string Null = ''null'' \<and>
   length (order_row now ord) = 10 \<and>
   order_row now ord ! 6 = Str ''PENDING_CONFIRMATION'' \<and>
   order_row now ord ! 7 = Str [] \<and>
   order_row now ord ! 8 = Str [] \<and>
   order_row now ord ! 9 = Str now \<and>
   (initialized w \<and> \<not> f \<longrightarrow>
      addOrder w f now ord =
        (True, w\<lparr>sheet := sheet w @ [map cell_text (order_row now ord)],
                  writes := Suc (writes w)\<rparr>))"
proof -
  have s: "order_row now ord ! 5 = Str (join '', '' (map item_summary its))"
    using assms by (simp add: order_row_cells js_or_def)
  have j: "join '', '' (map item_summary its) =
     (case its of [] \<Rightarrow> []
      | it # rest \<Rightarrow> item_summary it @ concat (map (\<lambda>i. '', '' @ item_summary i) rest))"
    by (cases its) (simp_all add: join_Cons o_def)
  have t: "\<forall>n. is_decimal_of (to_string (Num n)) (sint n)"
    by (simp add: show_int_decimal)
  show ?thesis
    using s j t item_summary_plain item_summary_sized addOrder_ok [of w f now ord]
    by (simp add: order_row_cells)
qed

theorem addOrder_items_summary_witness:
  "items mixed_order = Some mixed_items \<and>
   order_row ''2024-01-04T12:00:00.000Z'' mixed_order ! 5
     = Str ''Shirt (M) x2, Cap x120, Ribbon x1.5'' \<and>
   order_row ''2024-01-04T12:00:00.000Z'' mixed_order ! 6 = Str ''PENDING_CONFIRMATION'' \<and>
   order_row ''2024-01-04T12:00:00.000Z'' mixed_order ! 7 = Str [] \<and>
   order_row ''2024-01-04T12:00:00.000Z'' mixed_order ! 8 = Str [] \<and>
   order_row ''2024-01-04T12:00:00.000Z'' mixed_order ! 9 = Str ''2024-01-04T12:00:00.000Z'' \<and>
   initialized ledger \<and>
   addOrder ledger False ''2024-01-04T12:00:00.000Z'' mixed_order =
     (True, ledger\<lparr>sheet := sheet ledger @
        [[''o5'', ''1005'', [], [], ''0'', ''Shirt (M) x2, Cap x120, Ribbon x1.5'',
          ''PENDING_CONFIRMATION'', [], [], ''2024-01-04T12:00:00.000Z'']], writes := 1\<rparr>)"
proof -
  let ?t = "''2024-01-04T12:00:00.000Z''"
  have i: "items mixed_order = Some mixed_items" by (simp add: mixed_order_def)
  have on: "initialized ledger" "writes ledger = 0" by (simp_all add: ledger_def)
  have j: "join '', '' (map item_summary mixed_items) = ''Shirt (M) x2, Cap x120, Ribbon x1.5''"
    by code_simp
  have r: "map cell_text (order_row ?t mixed_order) =
     [''o5'', ''1005'', [], [], ''0'', ''Shirt (M) x2, Cap x120, Ribbon x1.5'',
          ''PENDING_CONFIRMATION'', [], [], ''2024-01-04T12:00:00.000Z'']" by code_simp
  from addOrder_items_summary [OF i, of ?t ledger False] i on j r show ?thesis by simp
qed

lemma show_int_0: "show_int 0 = ''0''"
  by code_simp

text \<open>
  An order without a total price: the cell of total_amount is the number 0, written to
  the sheet as \<open>0\<close>, and not the empty string.
\<close>

theorem absent_amount_counterexample:
  "totalPrice bare_order = None \<and>
   order_row ''2024-01-04T12:00:00.000Z'' bare_order ! 4 = Num 0 \<and>
   map cell_text (order_row ''2024-01-04T12:00:00.000Z'' bare_order) ! 4 = ''0''"
  by code_simp

text \<open>
  Claim C6, amended. The row has ten cells. The cell of customer_name is the empty string
  when the name of the customer is absent, that of phone when both the phone of the
  shipping address and that of the customer are absent, that of items_summary when the
  order has no items collection; when the amount is absent, the cell of total_amount is
  the number 0, whose text in the sheet is \<open>0\<close>.
\<close>

theorem absent_fields_cells:
  "length (map cell_text (order_row now ord)) = 10 \<and>
   (absent (customer_name_of ord) \<longrightarrow> order_row now ord ! 2 = Str []) \<and>
   (absent (shipping_phone_of ord) \<and> absent (customer_phone_of ord) \<longrightarrow>
      order_row now ord ! 3 = Str []) \<and>
   (items ord = None \<longrightarrow> order_row now ord ! 5 = Str []) \<and>
   (absent (amount_of ord) \<longrightarrow>
      order_row now ord ! 4 = Num 0 \<and> map cell_text (order_row now ord) ! 4 = ''0'')"
proof -
  have n: "map cell_text (order_row now ord) ! 4 = cell_text (order_row now ord ! 4)"
    by (simp add: order_row_cells)
  show ?thesis
    unfolding n
    by (auto simp: order_row_cells absent_def js_or_def show_int_0)
qed

theorem absent_fields_cells_witness:
  "absent (customer_name_of bare_order) \<and> absent (shipping_phone_of bare_order) \<and>
   absent (customer_phone_of bare_order) \<and> items bare_order = None \<and>
   absent (amount_of bare_order) \<and>
   map cell_text (order_row ''2024-01-04T12:00:00.000Z'' bare_order) =
     [''o7'', ''1007'', [], [], ''0'', [], ''PENDING_CONFIRMATION'', [], [],
      ''2024-01-04T12:00:00.000Z'']"
proof -
  have a: "absent (customer_name_of bare_order)" "absent (shipping_phone_of bare_order)"
    "absent (customer_phone_of bare_order)" "items bare_order = None"
    "absent (amount_of bare_order)"
    by (simp_all add: absent_def customer_name_of_def shipping_phone_of_def
          customer_phone_of_def amount_of_def bare_order_def)
  have r: "map cell_text (order_row ''2024-01-04T12:00:00.000Z'' bare_order) =
     [''o7'', ''1007'', [], [], ''0'', [], ''PENDING_CONFIRMATION'', [], [],
      ''2024-01-04T12:00:00.000Z'']" by code_simp
  from absent_fields_cells [of "''2024-01-04T12:00:00.000Z''" bare_order] a r
  show ?thesis by simp
qed

subsection \<open>Phones without digits\<close>

lemma is_later_None: "is_later c None"
  by (simp add: is_later_def)

lemma pending_step_first:
  assumes "qualifies p row"
  shows "\<exists>r. pending_step (strip_non_digits p) row (None, None) = (Some r, cell row 9) \<and>
             is_record_of r row"
  using assms by (simp add: pending_step_eq is_later_None is_record_of_row)

lemma phones_match_no_digits:
  assumes "strip_non_digits a = [] \<or> strip_non_digits b = []"
  shows "phones_match a b"
proof -
  have "contains s []" for s
    unfolding contains_def by (intro exI [of _ "[]"] exI [of _ s]) simp
  with assms show ?thesis by (auto simp: phones_match_def strip_non_digits_def)
qed

text \<open>
  Claim C10. When the input phone has no digit, every row is a phone match and the loop
  of getPendingOrderByPhone takes every pending row it meets first; the method, when the
  service is initialized and the store answers, returns nothing exactly when no data row
  is pending and otherwise the record, field by field, of a pending data row whose
  created_at no pending data row exceeds, whatever the phones of the rows. Likewise a row
  whose phone cell has no digit matches every input phone: the loop takes it when it is
  pending, and with such a row among the data rows the method returns, for every input
  phone, the record of a qualifying row that is at least as recent.
\<close>

theorem no_digits_match_every_row:
  "(strip_non_digits p = [] \<longrightarrow>
      (\<forall>row. phones_match (stored_phone row) p \<and>
         (is_pending row \<longrightarrow>
            (\<exists>r. pending_step (strip_non_digits p) row (None, None) = (Some r, cell row 9) \<and>
                 is_record_of r row))) \<and>
      (initialized w \<and> \<not> f \<longrightarrow>
         (case getPendingOrderByPhone w f p of
            None \<Rightarrow> \<forall>row\<in>set (data_rows w). \<not> is_pending row
          | Some r \<Rightarrow>
              \<exists>row\<in>set (data_rows w). is_pending row \<and> is_record_of r row \<and>
                (\<forall>row'\<in>set (data_rows w). is_pending row' \<longrightarrow>
                   created_at row' \<le> created_at row)))) \<and>
   (\<forall>row. strip_non_digits (stored_phone row) = [] \<longrightarrow>
      phones_match (stored_phone row) p \<and>
      (is_pending row \<longrightarrow>
         (\<exists>r. pending_step (strip_non_digits p) row (None, None) = (Some r, cell row 9) \<and>
              is_record_of r row))) \<and>
   (initialized w \<and> \<not> f \<longrightarrow>
      (\<forall>row\<in>set (data_rows w).
         strip_non_digits (stored_phone row) = [] \<and> is_pending row \<longrightarrow>
         (\<exists>r. getPendingOrderByPhone w f p = Some r \<and>
            (\<exists>row'\<in>set (data_rows w). qualifies p row' \<and> is_record_of r row' \<and>
               created_at row \<le> created_at row'))))"
proof -
  have m: "phones_match (stored_phone row) p \<and>
         (is_pending row \<longrightarrow>
            (\<exists>r. pending_step (strip_non_digits p) row (None, None) = (Some r, cell row 9) \<and>
                 is_record_of r row))"
    if "strip_non_digits p = [] \<or> strip_non_digits (stored_phone row) = []" for row
  proof -
    from that have pm: "phones_match (stored_phone row) p"
      by (intro phones_match_no_digits) auto
    then have "is_pending row \<Longrightarrow> qualifies p row" by (simp add: qualifies_def)
    with pm pending_step_first show ?thesis by blast
  qed
  have res: "case getPendingOrderByPhone w f p of
            None \<Rightarrow> \<forall>row\<in>set (data_rows w). \<not> is_pending row
          | Some r \<Rightarrow>
              \<exists>row\<in>set (data_rows w). is_pending row \<and> is_record_of r row \<and>
                (\<forall>row'\<in>set (data_rows w). is_pending row' \<longrightarrow>
                   created_at row' \<le> created_at row)"
    if e: "strip_non_digits p = []" and i: "initialized w" "\<not> f"
  proof -
    have q: "qualifies p row = is_pending row" for row
      using m [of row] e by (simp add: qualifies_def)
    from best_of_result [of p w] show ?thesis
      by (auto simp: getPending_eq [OF i] best_of_def q is_record_of_row split: option.splits)
  qed
  have sym: "\<exists>r. getPendingOrderByPhone w f p = Some r \<and>
            (\<exists>row'\<in>set (data_rows w). qualifies p row' \<and> is_record_of r row' \<and>
               created_at row \<le> created_at row')"
    if i: "initialized w" "\<not> f" and row: "row \<in> set (data_rows w)"
      "strip_non_digits (stored_phone row) = []" "is_pending row" for row
  proof -
    from m [of row] row have q: "qualifies p row" by (simp add: qualifies_def)
    from best_of_result [of p w] q row(1) show ?thesis
      by (auto simp: getPending_eq [OF i] best_of_def is_record_of_row split: option.splits)
  qed
  from m res sym show ?thesis by blast
qed

theorem no_digits_match_every_row_witness:
  "strip_non_digits ''n/a'' = [] \<and> initialized ledger \<and>
   \<not> phones_match (stored_phone row_o3) ''5551234567'' \<and>
   getPendingOrderByPhone ledger False ''n/a'' =
     Some \<lparr>po_orderId = Some ''o3'', po_orderNumber = Some ''1003'',
           po_customerName = Some ''Bob'', po_phone = Some ''7770001111'',
           po_totalAmount = Some ''5'', po_itemsSummary = Some ''Sock x3'',
           po_status = Some ''PENDING_CONFIRMATION'', po_lastCustomerMessage = [],
           po_confirmedAt = [], po_createdAt = Some ''2024-01-03T08:00:00.000Z''\<rparr> \<and>
   strip_non_digits (stored_phone row_o4) = [] \<and> is_pending row_o4 \<and>
   initialized walk_in_ledger \<and> \<not> qualifies ''7770001111'' row_o1 \<and>
   getPendingOrderByPhone walk_in_ledger False ''7770001111'' =
     Some \<lparr>po_orderId = Some ''o4'', po_orderNumber = Some ''1004'',
           po_customerName = Some ''Cy'', po_phone = Some ''n/a'',
           po_totalAmount = Some ''7'', po_itemsSummary = Some ''Hat x1'',
           po_status = Some ''PENDING_CONFIRMATION'', po_lastCustomerMessage = [],
           po_confirmedAt = [], po_createdAt = Some ''2024-01-06T15:45:00.000Z''\<rparr>"
proof -
  let ?r3 = "\<lparr>po_orderId = Some ''o3'', po_orderNumber = Some ''1003'',
           po_customerName = Some ''Bob'', po_phone = Some ''7770001111'',
           po_totalAmount = Some ''5'', po_itemsSummary = Some ''Sock x3'',
           po_status = Some ''PENDING_CONFIRMATION'', po_lastCustomerMessage = [],
           po_confirmedAt = [], po_createdAt = Some ''2024-01-03T08:00:00.000Z''\<rparr>"
  let ?r4 = "\<lparr>po_orderId = Some ''o4'', po_orderNumber = Some ''1004'',
           po_customerName = Some ''Cy'', po_phone = Some ''n/a'',
           po_totalAmount = Some ''7'', po_itemsSummary = Some ''Hat x1'',
           po_status = Some ''PENDING_CONFIRMATION'', po_lastCustomerMessage = [],
           po_confirmedAt = [], po_createdAt = Some ''2024-01-06T15:45:00.000Z''\<rparr>"
  have e: "strip_non_digits ''n/a'' = []" by code_simp
  have i: "initialized ledger" "initialized walk_in_ledger"
    by (simp_all add: ledger_def walk_in_ledger_def)
  have n: "\<not> phones_match (stored_phone row_o3) ''5551234567''"
    unfolding phones_match_def str_includes_iff [symmetric] by code_simp
  have e4: "strip_non_digits (stored_phone row_o4) = []" "is_pending row_o4" by code_simp+
  have q1: "\<not> qualifies ''7770001111'' row_o1"
    unfolding qualifies_def phones_match_def str_includes_iff [symmetric] by code_simp
  have d: "data_rows walk_in_ledger = [row_o4, row_o1]"
    by (simp add: walk_in_ledger_def data_rows_def)
  have c4: "order_of_row row_o4 = ?r4" by code_simp
  have r3: "getPendingOrderByPhone ledger False ''n/a'' = Some ?r3" by code_simp
  from no_digits_match_every_row [of "''7770001111''" walk_in_ledger False] i e4
  obtain r row' where r: "getPendingOrderByPhone walk_in_ledger False ''7770001111'' = Some r"
    "row' \<in> set (data_rows walk_in_ledger)" "qualifies ''7770001111'' row'" "is_record_of r row'"
    unfolding d by auto
  from r(2,3) q1 have "row' = row_o4" by (auto simp: d)
  with r(4) have "r = ?r4" using is_record_of_unique [of r row_o4] c4 by simp
  with r(1) no_digits_match_every_row [of "''n/a''" ledger False] e i n r3 e4 q1
  show ?thesis by simp
qed

end
